theory Spec2Isabelle
  imports Complex_Main "HOL-Library.Sublist"
begin

section \<open>Seasaw: the trust report and its presentation\<close>

text \<open>
  A shallow embedding of the Seasaw front end: the report types, the nutrition label
  (\<^verbatim>\<open>NutritionLabel.tsx\<close>), the score badge, the server action \<^verbatim>\<open>analyzeService\<close> and the
  page component \<^verbatim>\<open>Home\<close> with its search bar and preset grid.

  Strings are \<open>string\<close>; a character beyond ASCII is written as its UTF-8 bytes.
\<close>

subsection \<open>Numbers\<close>

text \<open>
  A JavaScript \<^verbatim>\<open>number\<close> is an IEEE 754 double: a finite double, given here by its exact
  rational value, one of the two infinities, or \<^verbatim>\<open>NaN\<close>. The numbers of a report come from
  JSON, where a literal such as \<^verbatim>\<open>1e999\<close> parses to \<^verbatim>\<open>Infinity\<close>. Every arithmetic
  operation rounds its exact result to the nearest double, ties to the even significand,
  and overflows to an infinity (\<open>round64\<close>). The two zeros are identified: they compare
  equal and print alike, and no divisor in this program can be the negative zero (a sum
  that starts from \<^verbatim>\<open>0\<close> is never \<^verbatim>\<open>-0\<close>, and the other division is guarded by
  \<^verbatim>\<open>weight > 0\<close>).
\<close>

datatype js_number = Fin rat | PosInf | NegInf | NaN

text \<open>
  The finite doubles are the numbers \<open>m * 2 powi e\<close> with \<open>\<bar>m\<bar> < 2 ^ 53\<close> and
  \<open>- 1074 \<le> e \<le> 971\<close>. \<open>expo x\<close> is the exponent of the doubles around a positive \<open>x\<close>:
  the \<open>e\<close> with \<open>2 ^ 52 \<le> x / 2 powi e < 2 ^ 53\<close>, and \<open>- 1074\<close> for a subnormal \<open>x\<close>.
\<close>

function scale_down :: "rat \<Rightarrow> int \<Rightarrow> int" where
  "scale_down x e = (if 2 ^ 53 \<le> x then scale_down (x / 2) (e + 1) else e)"
  by pat_completeness auto
termination
proof (relation "measure (\<lambda>(x, e). nat \<lfloor>x\<rfloor>)")
  show "wf (measure (\<lambda>(x :: rat, e :: int). nat \<lfloor>x\<rfloor>))" by simp
next
  fix x :: rat and e :: int
  assume "2 ^ 53 \<le> x"
  then have "\<lfloor>x / 2\<rfloor> < \<lfloor>x\<rfloor>" by (simp add: floor_less_iff) linarith
  moreover from \<open>2 ^ 53 \<le> x\<close> have "0 < \<lfloor>x\<rfloor>" by simp
  ultimately show "((x / 2, e + 1), (x, e)) \<in> measure (\<lambda>(x, e). nat \<lfloor>x\<rfloor>)" by simp
qed

function scale_up :: "rat \<Rightarrow> int \<Rightarrow> int" where
  "scale_up x e = (if x < 2 ^ 52 \<and> - 1074 < e then scale_up (2 * x) (e - 1) else e)"
  by pat_completeness auto
termination
  by (relation "measure (\<lambda>(x, e). nat (e + 1074))") auto

declare scale_down.simps [simp del] scale_up.simps [simp del]

definition expo :: "rat \<Rightarrow> int" where
  "expo x = (if 2 ^ 52 \<le> x then scale_down x 0 else scale_up x 0)"

definition round_half_even :: "rat \<Rightarrow> int" where
  "round_half_even t =
     (let f = \<lfloor>t\<rfloor>; d = t - of_int f in
      if d < 1 / 2 then f else if 1 / 2 < d then f + 1 else if even f then f else f + 1)"

definition round64 :: "rat \<Rightarrow> js_number" where
  \<comment> \<open>the double nearest to \<open>x\<close>; from \<open>2 ^ 1024 - 2 ^ 970\<close> on the result is an infinity\<close>
  "round64 x =
     (if x = 0 then Fin 0
      else
        (let e = expo \<bar>x\<bar>;
             v = of_int (round_half_even (\<bar>x\<bar> / 2 powi e)) * 2 powi e in
         if 2 ^ 1024 \<le> v then (if 0 < x then PosInf else NegInf)
         else Fin (if 0 < x then v else - v)))"

fun js_plus :: "js_number \<Rightarrow> js_number \<Rightarrow> js_number" where
  \<comment> \<open>\<^verbatim>\<open>x + y\<close>\<close>
  "js_plus NaN y = NaN"
| "js_plus x NaN = NaN"
| "js_plus (Fin a) (Fin b) = round64 (a + b)"
| "js_plus PosInf NegInf = NaN"
| "js_plus NegInf PosInf = NaN"
| "js_plus PosInf y = PosInf"
| "js_plus NegInf y = NegInf"
| "js_plus (Fin a) y = y"

fun js_div :: "js_number \<Rightarrow> js_number \<Rightarrow> js_number" where
  \<comment> \<open>\<^verbatim>\<open>x / y\<close>; a zero divisor gives an infinity or \<^verbatim>\<open>NaN\<close>, never an exception\<close>
  "js_div NaN y = NaN"
| "js_div x NaN = NaN"
| "js_div (Fin a) (Fin b) =
     (if b \<noteq> 0 then round64 (a / b)
      else if 0 < a then PosInf
      else if a < 0 then NegInf
      else NaN)"
| "js_div (Fin a) y = Fin 0"
| "js_div PosInf (Fin b) = (if 0 \<le> b then PosInf else NegInf)"
| "js_div NegInf (Fin b) = (if 0 \<le> b then NegInf else PosInf)"
| "js_div x y = NaN"

fun js_times :: "js_number \<Rightarrow> rat \<Rightarrow> js_number" where
  \<comment> \<open>\<^verbatim>\<open>x * c\<close> for a finite positive constant \<open>c\<close> (the code multiplies by 100)\<close>
  "js_times (Fin x) c = round64 (x * c)"
| "js_times PosInf c = PosInf"
| "js_times NegInf c = NegInf"
| "js_times NaN c = NaN"

fun js_gt :: "js_number \<Rightarrow> rat \<Rightarrow> bool" where
  \<comment> \<open>\<^verbatim>\<open>x > c\<close>; every comparison with \<^verbatim>\<open>NaN\<close> is false\<close>
  "js_gt (Fin x) c = (x > c)"
| "js_gt PosInf c = True"
| "js_gt NegInf c = False"
| "js_gt NaN c = False"

fun js_ge :: "js_number \<Rightarrow> rat \<Rightarrow> bool" where
  \<comment> \<open>\<^verbatim>\<open>x >= c\<close>; every comparison with \<^verbatim>\<open>NaN\<close> is false\<close>
  "js_ge (Fin x) c = (x \<ge> c)"
| "js_ge PosInf c = True"
| "js_ge NegInf c = False"
| "js_ge NaN c = False"

subsection \<open>The report (\<^verbatim>\<open>types\<close>)\<close>

record PolicyAttribute =
  id' :: string
  label :: string
  value' :: string
  severity :: string
  evidence :: string
  weight :: js_number
  points_earned :: js_number

record AnalyzeResponse =
  service_name :: string
  domain :: string
  terms_url :: string
  privacy_url :: string
  trust_score :: js_number
  grade :: string
  analyzed_at :: string
  attributes :: "PolicyAttribute list"
  error' :: "string option"

subsection \<open>The score badge (\<^verbatim>\<open>ScoreBadge\<close>)\<close>

text \<open>
  \<^verbatim>\<open>colors\<close> is an object literal, so \<^verbatim>\<open>colors[grade]\<close> reads an own property or, failing
  that, a property inherited from \<^verbatim>\<open>Object.prototype\<close>. The value read is a string in the
  first case and a built-in member (a function, or the prototype object for \<^verbatim>\<open>__proto__\<close>)
  in the second.
\<close>

datatype js_property = JString string | JInherited string

definition Object_prototype_keys :: "string list" where
  "Object_prototype_keys =
     [''constructor'', ''__defineGetter__'', ''__defineSetter__'', ''hasOwnProperty'',
      ''__lookupGetter__'', ''__lookupSetter__'', ''isPrototypeOf'', ''propertyIsEnumerable'',
      ''toString'', ''valueOf'', ''__proto__'', ''toLocaleString'']"

definition get_property :: "(string \<times> string) list \<Rightarrow> string \<Rightarrow> js_property option" where
  \<comment> \<open>\<^verbatim>\<open>obj[key]\<close> on an object literal with string values; \<open>None\<close> is \<^verbatim>\<open>undefined\<close>\<close>
  "get_property obj k =
     (case map_of obj k of
        Some v \<Rightarrow> Some (JString v)
      | None \<Rightarrow> if k \<in> set Object_prototype_keys then Some (JInherited k) else None)"

fun truthy_property :: "js_property \<Rightarrow> bool" where
  "truthy_property (JString s) = (s \<noteq> [])"
| "truthy_property (JInherited k) = True"

definition colors :: "(string \<times> string) list" where
  "colors =
     [(''A'', ''#22c55e''), (''B'', ''#84cc16''), (''C'', ''#eab308''),
      (''D'', ''#f97316''), (''F'', ''#ef4444'')]"

definition getGradeColor :: "string \<Rightarrow> js_property" where
  \<comment> \<open>\<^verbatim>\<open>colors[grade] || "#6b7280"\<close>\<close>
  "getGradeColor g =
     (case get_property colors g of
        Some v \<Rightarrow> if truthy_property v then v else JString ''#6b7280''
      | None \<Rightarrow> JString ''#6b7280'')"

subsection \<open>The nutrition label (\<^verbatim>\<open>NutritionLabel.tsx\<close>)\<close>

record category =
  title :: string
  icon :: string
  ids :: "string list"

definition CATEGORIES :: "category list" where
  "CATEGORIES =
     [\<lparr>title = ''Data Practices'', icon = [CHR 0xF0, CHR 0x9F, CHR 0x94, CHR 0x90],
       ids = [''data_selling'', ''data_sharing'', ''third_party_tracking'']\<rparr>,
      \<lparr>title = ''Your Rights'', icon = [CHR 0xF0, CHR 0x9F, CHR 0x91, CHR 0xA4],
       ids = [''account_deletion'', ''class_action_waiver'', ''arbitration_clause'']\<rparr>,
      \<lparr>title = ''Security & Retention'',
       icon = [CHR 0xF0, CHR 0x9F, CHR 0x9B, CHR 0xA1, CHR 0xEF, CHR 0xB8, CHR 0x8F],
       ids = [''encryption'', ''data_retention'', ''government_requests'']\<rparr>,
      \<lparr>title = ''Legal Terms'', icon = [CHR 0xF0, CHR 0x9F, CHR 0x93, CHR 0x8B],
       ids = [''unilateral_changes'', ''liability_limitation'', ''content_license'']\<rparr>]"

record severity_dot =
  dot_className :: string
  dot_title :: string

definition SeverityDot :: "string \<Rightarrow> severity_dot" where
  "SeverityDot sev =
     \<lparr>dot_className = ''severity-dot severity-'' @ sev,
      dot_title = (if sev = ''good'' then ''Good''
                   else if sev = ''bad'' then ''Concern'' else ''Unclear'')\<rparr>"

datatype glyph = Check | Dash | Bang | Question

definition SeverityIcon :: "string \<Rightarrow> string \<times> glyph" where
  \<comment> \<open>the class name and the glyph of the icon\<close>
  "SeverityIcon sev =
     (if sev = ''good'' then (''severity-icon severity-good'', Check)
      else if sev = ''neutral'' then (''severity-icon severity-neutral'', Dash)
      else if sev = ''bad'' then (''severity-icon severity-bad'', Bang)
      else (''severity-icon'', Question))"

record severity_bar =
  bar_width :: js_number
  bar_background :: string

definition SeverityBar :: "js_number \<Rightarrow> severity_bar" where
  "SeverityBar score =
     \<lparr>bar_width = score,
      bar_background = (if js_ge score 70 then ''var(--good)''
                        else if js_ge score 40 then ''var(--neutral)''
                        else ''var(--bad)'')\<rparr>"

definition fillPercent :: "PolicyAttribute \<Rightarrow> js_number" where
  \<comment> \<open>\<^verbatim>\<open>attr.weight > 0 ? (attr.points_earned / attr.weight) * 100 : 0\<close>\<close>
  "fillPercent attr =
     (if js_gt (weight attr) 0 then js_times (js_div (points_earned attr) (weight attr)) 100
      else Fin 0)"

record attribute_row =
  row_attr :: PolicyAttribute
  row_icon :: "string \<times> glyph"
  row_bar :: severity_bar
  row_points :: "js_number \<times> js_number"
  row_evidence :: "string option"

definition AttributeRow :: "PolicyAttribute \<Rightarrow> bool \<Rightarrow> attribute_row" where
  \<comment> \<open>the second argument is the row's own \<^verbatim>\<open>expanded\<close> state, \<open>False\<close> when first rendered\<close>
  "AttributeRow attr expanded =
     \<lparr>row_attr = attr,
      row_icon = SeverityIcon (severity attr),
      row_bar = SeverityBar (fillPercent attr),
      row_points = (points_earned attr, weight attr),
      row_evidence = (if expanded then Some (evidence attr) else None)\<rparr>"

definition totalPossible :: "AnalyzeResponse \<Rightarrow> js_number" where
  "totalPossible data = foldl (\<lambda>sum a. js_plus sum (weight a)) (Fin 0) (attributes data)"

definition totalEarned :: "AnalyzeResponse \<Rightarrow> js_number" where
  "totalEarned data = foldl (\<lambda>sum a. js_plus sum (points_earned a)) (Fin 0) (attributes data)"

record score_breakdown =
  breakdown_width :: js_number
  breakdown_earned :: js_number
  breakdown_possible :: js_number
  breakdown_overall :: js_number

definition ScoreBreakdown :: "AnalyzeResponse \<Rightarrow> score_breakdown" where
  \<comment> \<open>the bar's width is \<^verbatim>\<open>(totalEarned / totalPossible) * 100\<close>, with no test of the divisor\<close>
  "ScoreBreakdown data =
     \<lparr>breakdown_width = js_times (js_div (totalEarned data) (totalPossible data)) 100,
      breakdown_earned = totalEarned data,
      breakdown_possible = totalPossible data,
      breakdown_overall = trust_score data\<rparr>"

record category_section =
  sec_title :: string
  sec_icon :: string
  sec_dots :: "(string \<times> severity_dot) list"
  sec_rows :: "attribute_row list"

definition CategorySection :: "string \<Rightarrow> string \<Rightarrow> PolicyAttribute list \<Rightarrow> category_section option" where
  \<comment> \<open>\<open>None\<close> is the \<^verbatim>\<open>null\<close> returned for an empty attribute list: nothing is rendered\<close>
  "CategorySection t i attrs =
     (if length attrs = 0 then None
      else Some \<lparr>sec_title = t, sec_icon = i,
                 sec_dots = map (\<lambda>a. (id' a, SeverityDot (severity a))) attrs,
                 sec_rows = map (\<lambda>attr. AttributeRow attr False) attrs\<rparr>)"

definition attrMap :: "PolicyAttribute list \<Rightarrow> (string \<rightharpoonup> PolicyAttribute)" where
  \<comment> \<open>\<^verbatim>\<open>new Map(data.attributes.map((a) => [a.id, a]))\<close>: the entries are set in order\<close>
  "attrMap attrs = foldl (\<lambda>m a. m(id' a \<mapsto> a)) Map.empty attrs"

definition catAttrs :: "(string \<rightharpoonup> PolicyAttribute) \<Rightarrow> category \<Rightarrow> PolicyAttribute list" where
  \<comment> \<open>\<^verbatim>\<open>cat.ids.map((id) => attrMap.get(id)).filter((a) => a !== undefined)\<close>\<close>
  "catAttrs m cat = map the (filter (\<lambda>a. a \<noteq> None) (map (\<lambda>i. m i) (ids cat)))"

record nutrition_label =
  nl_goodCount :: nat
  nl_badCount :: nat
  nl_neutralCount :: nat
  nl_breakdown :: score_breakdown
  nl_categories :: "category_section option list"

definition NutritionLabel :: "AnalyzeResponse \<Rightarrow> nutrition_label" where
  "NutritionLabel data =
     \<lparr>nl_goodCount = length (filter (\<lambda>a. severity a = ''good'') (attributes data)),
      nl_badCount = length (filter (\<lambda>a. severity a = ''bad'') (attributes data)),
      nl_neutralCount = length (filter (\<lambda>a. severity a = ''neutral'') (attributes data)),
      nl_breakdown = ScoreBreakdown data,
      nl_categories =
        map (\<lambda>cat. CategorySection (title cat) (icon cat)
                     (catAttrs (attrMap (attributes data)) cat)) CATEGORIES\<rparr>"

definition displayed_categories :: "AnalyzeResponse \<Rightarrow> category_section list" where
  \<comment> \<open>the sections that appear on the page: a \<^verbatim>\<open>null\<close> child renders nothing\<close>
  "displayed_categories data = map the (filter (\<lambda>s. s \<noteq> None) (nl_categories (NutritionLabel data)))"

section \<open>Seasaw: the analysis request\<close>

subsection \<open>Strings\<close>

text \<open>
  \<^verbatim>\<open>String.prototype.trim\<close> removes white space and line terminators from both ends.
  \<open>whitespace\<close> lists the UTF-8 encodings of the code points it removes: TAB, LF, VT, FF, CR,
  SPACE, U+00A0, U+1680, U+2000 to U+200A, U+2028, U+2029, U+202F, U+205F, U+3000, U+FEFF.
\<close>

definition whitespace :: "string list" where
  "whitespace =
     [[CHR 0x09], [CHR 0x0A], [CHR 0x0B], [CHR 0x0C], [CHR 0x0D], [CHR 0x20],
      [CHR 0xC2, CHR 0xA0], [CHR 0xE1, CHR 0x9A, CHR 0x80],
      [CHR 0xE2, CHR 0x80, CHR 0x80], [CHR 0xE2, CHR 0x80, CHR 0x81],
      [CHR 0xE2, CHR 0x80, CHR 0x82], [CHR 0xE2, CHR 0x80, CHR 0x83],
      [CHR 0xE2, CHR 0x80, CHR 0x84], [CHR 0xE2, CHR 0x80, CHR 0x85],
      [CHR 0xE2, CHR 0x80, CHR 0x86], [CHR 0xE2, CHR 0x80, CHR 0x87],
      [CHR 0xE2, CHR 0x80, CHR 0x88], [CHR 0xE2, CHR 0x80, CHR 0x89],
      [CHR 0xE2, CHR 0x80, CHR 0x8A], [CHR 0xE2, CHR 0x80, CHR 0xA8],
      [CHR 0xE2, CHR 0x80, CHR 0xA9], [CHR 0xE2, CHR 0x80, CHR 0xAF],
      [CHR 0xE2, CHR 0x81, CHR 0x9F], [CHR 0xE3, CHR 0x80, CHR 0x80],
      [CHR 0xEF, CHR 0xBB, CHR 0xBF]]"

fun strip_one :: "string list \<Rightarrow> string \<Rightarrow> string option" where
  \<comment> \<open>removes one of the given sequences from the front, if the string starts with one\<close>
  "strip_one [] s = None"
| "strip_one (w # ws) s =
     (if w \<noteq> [] \<and> prefix w s then Some (drop (length w) s) else strip_one ws s)"

function strip_start :: "string list \<Rightarrow> string \<Rightarrow> string" where
  "strip_start ws s = (case strip_one ws s of None \<Rightarrow> s | Some r \<Rightarrow> strip_start ws r)"
  by pat_completeness auto
termination
proof (relation "measure (\<lambda>(ws, s). length s)")
  show "wf (measure (\<lambda>(ws :: string list, s :: string). length s))" by simp
next
  fix ws :: "string list" and s r :: string
  assume "strip_one ws s = Some r"
  then have "length r < length s"
    by (induction ws) (auto split: if_splits simp: prefix_def)
  then show "((ws, r), (ws, s)) \<in> measure (\<lambda>(ws, s). length s)" by simp
qed

declare strip_start.simps [simp del]

definition trim :: "string \<Rightarrow> string" where
  "trim s = rev (strip_start (map rev whitespace) (rev (strip_start whitespace s)))"

fun digits :: "nat \<Rightarrow> string" where
  \<comment> \<open>a non-negative integer in a template literal: its decimal digits\<close>
  "digits n =
     (if n < 10 then [''0123456789'' ! n]
      else digits (n div 10) @ [''0123456789'' ! (n mod 10)])"

declare digits.simps [simp del]

subsection \<open>JSON values and thrown values\<close>

text \<open>
  A value parsed from JSON. A number is identified by the text that \<^verbatim>\<open>String\<close> gives for it
  (\<^verbatim>\<open>"0"\<close> for zero), and the members of an object are listed in the order of the text, a
  later member of the same name replacing an earlier one.
\<close>

datatype json =
  JNull | JBool bool | JNum string | JStr string | JArr "json list" | JObj "(string \<times> json) list"

fun truthy :: "json \<Rightarrow> bool" where
  "truthy JNull = False"
| "truthy (JBool b) = b"
| "truthy (JNum t) = (t \<noteq> ''0'')"
| "truthy (JStr s) = (s \<noteq> [])"
| "truthy (JArr xs) = True"
| "truthy (JObj kvs) = True"

fun join :: "string \<Rightarrow> string list \<Rightarrow> string" where
  "join sep [] = []"
| "join sep [x] = x"
| "join sep (x # y # ys) = x @ sep @ join sep (y # ys)"

fun js_String :: "json \<Rightarrow> string option" where
  \<comment> \<open>the string conversion that \<^verbatim>\<open>new Error(v)\<close> applies to its argument; \<open>None\<close> is the
      TypeError for an object that cannot be converted: a member named \<^verbatim>\<open>toString\<close> hides
      the inherited method and, coming from JSON, is not callable\<close>
  "js_String JNull = Some ''null''"
| "js_String (JBool b) = Some (if b then ''true'' else ''false'')"
| "js_String (JNum t) = Some t"
| "js_String (JStr s) = Some s"
| "js_String (JArr xs) =
     map_option (join '','') (those (map (\<lambda>x. if x = JNull then Some [] else js_String x) xs))"
| "js_String (JObj kvs) =
     (if ''toString'' \<in> fst ` set kvs then None else Some ''[object Object]'')"

text \<open>
  What a \<^verbatim>\<open>catch\<close> can receive: a \<^verbatim>\<open>DOMException\<close> with its name and message, any other
  \<^verbatim>\<open>Error\<close> with its message, or a value that is not an \<^verbatim>\<open>Error\<close>.
\<close>

datatype js_error = DOMException string string | Error string | NonError

subsection \<open>The network\<close>

text \<open>
  A promise of the network settles at some time, in milliseconds after the call started,
  or never does.
\<close>

datatype 'a timed = After nat 'a | Never

record http_response =
  status :: nat
  statusText :: string
  json_body :: "(js_error + json) timed"

definition ok :: "http_response \<Rightarrow> bool" where
  \<comment> \<open>\<^verbatim>\<open>res.ok\<close>: the status is in the range 200 to 299\<close>
  "ok res = (200 \<le> status res \<and> status res \<le> 299)"

type_synonym network = "(js_error + http_response) timed"

record fetch_request =
  url :: string
  method' :: string
  headers :: "(string \<times> string) list"
  body :: json
  cache :: string

subsection \<open>The server action (\<^verbatim>\<open>actions\<close>)\<close>

definition BACKEND_URL :: "string option \<Rightarrow> string" where
  \<comment> \<open>\<^verbatim>\<open>process.env.BACKEND_URL || "http://localhost:8000"\<close>\<close>
  "BACKEND_URL env =
     (case env of Some u \<Rightarrow> if u \<noteq> [] then u else ''http://localhost:8000''
      | None \<Rightarrow> ''http://localhost:8000'')"

definition timeout_ms :: nat where
  "timeout_ms = 120000"

fun await :: "(js_error + 'a) timed \<Rightarrow> js_error + 'a" where
  \<comment> \<open>awaiting a promise that the controller's signal aborts: settled before the timer fires,
      it gives its outcome; still pending then, it rejects with an \<^verbatim>\<open>AbortError\<close>\<close>
  "await (After t r) =
     (if t < timeout_ms then r else Inl (DOMException ''AbortError'' ''This operation was aborted''))"
| "await Never = Inl (DOMException ''AbortError'' ''This operation was aborted'')"

definition null_read_message :: string where
  "null_read_message =
     ''Cannot read properties of null (reading '' @ [CHR 0x27] @ ''detail'' @ [CHR 0x27] @ '')''"

fun detail :: "json \<Rightarrow> js_error + json option" where
  \<comment> \<open>\<^verbatim>\<open>body.detail\<close>: \<open>None\<close> is \<^verbatim>\<open>undefined\<close>; reading a property of \<^verbatim>\<open>null\<close> throws a TypeError\<close>
  "detail (JObj kvs) = Inr (map_of (rev kvs) ''detail'')"
| "detail JNull = Inl (Error null_read_message)"
| "detail v = Inr None"

definition convert_message :: string where
  "convert_message = ''Cannot convert object to primitive value''"

definition analyze_try :: "network \<Rightarrow> js_error + json" where
  \<comment> \<open>the \<^verbatim>\<open>try\<close> block\<close>
  "analyze_try net =
     (case await net of
        Inl err \<Rightarrow> Inl err
      | Inr res \<Rightarrow>
          if \<not> ok res then
            (let body = (case await (json_body res) of Inl err \<Rightarrow> JObj [] | Inr b \<Rightarrow> b) in
             case detail body of
               Inl err \<Rightarrow> Inl err
             | Inr d \<Rightarrow>
                 Inl (Error
                   (case d of
                      Some v \<Rightarrow>
                        if truthy v
                        then (case js_String v of Some m \<Rightarrow> m | None \<Rightarrow> convert_message)
                        else ''Backend returned '' @ digits (status res) @ '': '' @ statusText res
                    | None \<Rightarrow> ''Backend returned '' @ digits (status res) @ '': '' @ statusText res)))
          else await (json_body res))"

definition analyze_catch :: "js_error + json \<Rightarrow> js_error + json" where
  \<comment> \<open>the \<^verbatim>\<open>catch\<close> block: an \<^verbatim>\<open>AbortError\<close> becomes the timeout error, anything else is rethrown\<close>
  "analyze_catch r =
     (case r of
        Inl (DOMException n m) \<Rightarrow>
          if n = ''AbortError''
          then Inl (Error ''Analysis timed out. The service might be taking too long to respond.'')
          else Inl (DOMException n m)
      | Inl err \<Rightarrow> Inl err
      | Inr data \<Rightarrow> Inr data)"

definition analyzeService :: "string option \<Rightarrow> string \<Rightarrow> network \<Rightarrow> fetch_request list \<times> (js_error + json)" where
  \<comment> \<open>the requests sent to the backend and the outcome of the returned promise\<close>
  "analyzeService env query net =
     (let trimmed = trim query in
      if trimmed = [] then ([], Inl (Error ''Please enter a service name to analyze.''))
      else
        ([\<lparr>url = BACKEND_URL env @ ''/analyze'', method' = ''POST'',
           headers = [(''Content-Type'', ''application/json'')],
           body = JObj [(''query'', JStr trimmed)], cache = ''no-store''\<rparr>],
         analyze_catch (analyze_try net)))"

subsection \<open>The search bar and the preset grid\<close>

definition handleSubmit :: "string \<Rightarrow> bool \<Rightarrow> string option" where
  \<comment> \<open>\<^verbatim>\<open>SearchBar\<close>: the argument passed to \<^verbatim>\<open>onSearch\<close>, or \<open>None\<close> when it is not called\<close>
  "handleSubmit query isLoading =
     (if trim query \<noteq> [] \<and> \<not> isLoading then Some (trim query) else None)"

definition submit_disabled :: "string \<Rightarrow> bool \<Rightarrow> bool" where
  \<comment> \<open>the \<^verbatim>\<open>disabled\<close> attribute of the submit button\<close>
  "submit_disabled query isLoading = (trim query = [] \<or> isLoading)"

record preset =
  name :: string
  preset_icon :: string
  color :: string

definition SERVICE_PRESETS :: "preset list" where
  "SERVICE_PRESETS =
     [\<lparr>name = ''Netflix'', preset_icon = [CHR 0xF0, CHR 0x9F, CHR 0x8E, CHR 0xAC], color = ''#E50914''\<rparr>,
      \<lparr>name = ''Spotify'', preset_icon = [CHR 0xF0, CHR 0x9F, CHR 0x8E, CHR 0xB5], color = ''#1DB954''\<rparr>,
      \<lparr>name = ''Amazon'', preset_icon = [CHR 0xF0, CHR 0x9F, CHR 0x93, CHR 0xA6], color = ''#FF9900''\<rparr>,
      \<lparr>name = ''Google'', preset_icon = [CHR 0xF0, CHR 0x9F, CHR 0x94, CHR 0x8D], color = ''#4285F4''\<rparr>,
      \<lparr>name = ''Instagram'', preset_icon = [CHR 0xF0, CHR 0x9F, CHR 0x93, CHR 0xB8], color = ''#E4405F''\<rparr>,
      \<lparr>name = ''TikTok'', preset_icon = [CHR 0xF0, CHR 0x9F, CHR 0x8E, CHR 0xB6], color = ''#010101''\<rparr>,
      \<lparr>name = ''Uber'', preset_icon = [CHR 0xF0, CHR 0x9F, CHR 0x9A, CHR 0x97], color = ''#000000''\<rparr>,
      \<lparr>name = ''Discord'', preset_icon = [CHR 0xF0, CHR 0x9F, CHR 0x92, CHR 0xAC], color = ''#5865F2''\<rparr>]"

definition ServiceCard_click :: "string \<Rightarrow> bool \<Rightarrow> string option" where
  \<comment> \<open>a click on a card calls \<^verbatim>\<open>onClick(name)\<close> unless the button is disabled\<close>
  "ServiceCard_click n isLoading = (if isLoading then None else Some n)"

subsection \<open>The page (\<^verbatim>\<open>Home\<close>)\<close>

text \<open>
  The state of \<^verbatim>\<open>Home\<close>: its three state variables, the calls of \<^verbatim>\<open>analyzeService\<close> that
  have started in a transition and not settled (\<^verbatim>\<open>isPending\<close> is true while there is one),
  each with its query and with what the network will do for it, and a log of the requests
  sent to the backend.
\<close>

record call =
  call_query :: string
  call_network :: network

record home_state =
  result :: json
  error :: "string option"
  activeQuery :: string
  pending :: "call list"
  requests :: "fetch_request list"

definition initial :: home_state where
  "initial = \<lparr>result = JNull, error = None, activeQuery = [], pending = [], requests = []\<rparr>"

definition isPending :: "home_state \<Rightarrow> bool" where
  "isPending s = (pending s \<noteq> [])"

definition handleSearch :: "string option \<Rightarrow> network \<Rightarrow> string \<Rightarrow> home_state \<Rightarrow> home_state" where
  \<comment> \<open>clears the state, records the query and starts the call, which sends its request;
      the outcome of the call arrives with \<open>settle\<close>\<close>
  "handleSearch env net query s =
     s\<lparr>error := None, result := JNull, activeQuery := query,
       pending := pending s @ [\<lparr>call_query = query, call_network = net\<rparr>],
       requests := requests s @ fst (analyzeService env query net)\<rparr>"

definition error_message :: "js_error \<Rightarrow> string" where
  \<comment> \<open>\<^verbatim>\<open>err instanceof Error ? err.message : "An unexpected error occurred."\<close>\<close>
  "error_message err =
     (case err of
        DOMException n m \<Rightarrow> m
      | Error m \<Rightarrow> m
      | NonError \<Rightarrow> ''An unexpected error occurred.'')"

definition settle :: "string option \<Rightarrow> nat \<Rightarrow> home_state \<Rightarrow> home_state" where
  \<comment> \<open>the \<open>i\<close>-th call in flight settles: \<^verbatim>\<open>setResult(data)\<close>, or \<^verbatim>\<open>setError(message)\<close> in the
      \<^verbatim>\<open>catch\<close>; the outcome is stored without comparing it with anything\<close>
  "settle env i s =
     (if i < length (pending s) then
        (let s' = s\<lparr>pending := take i (pending s) @ drop (Suc i) (pending s)\<rparr>;
             c = pending s ! i in
         case snd (analyzeService env (call_query c) (call_network c)) of
           Inr data \<Rightarrow> s'\<lparr>result := data\<rparr>
         | Inl err \<Rightarrow> s'\<lparr>error := Some (error_message err)\<rparr>)
      else s)"

definition reset :: "home_state \<Rightarrow> home_state" where
  \<comment> \<open>the handler of the button "Analyze another service"\<close>
  "reset s = s\<lparr>result := JNull, error := None, activeQuery := []\<rparr>"

datatype event =
  SubmitForm string network
| ClickPreset nat network
| ClickAnalyzeAnother
| Settle nat

fun Home_step :: "string option \<Rightarrow> home_state \<Rightarrow> event \<Rightarrow> home_state" where
  \<comment> \<open>what an event does to the page as it is rendered in state \<open>s\<close>: the grid is rendered when
      there is neither a result nor a pending call, the reset button when there is a result
      and no pending call\<close>
  "Home_step env s (SubmitForm query net) =
     (case handleSubmit query (isPending s) of
        Some q \<Rightarrow> handleSearch env net q s
      | None \<Rightarrow> s)"
| "Home_step env s (ClickPreset i net) =
     (if \<not> truthy (result s) \<and> \<not> isPending s \<and> i < length SERVICE_PRESETS then
        (case ServiceCard_click (name (SERVICE_PRESETS ! i)) (isPending s) of
           Some n \<Rightarrow> handleSearch env net n s
         | None \<Rightarrow> s)
      else s)"
| "Home_step env s ClickAnalyzeAnother =
     (if truthy (result s) \<and> \<not> isPending s then reset s else s)"
| "Home_step env s (Settle i) = settle env i s"


datatype phase = Idle | Pending | Success json | Failure string

definition phase :: "home_state \<Rightarrow> phase" where
  \<comment> \<open>the lifecycle state the page shows: the loading section while pending, otherwise the
      result section for a truthy result, otherwise the error card for a truthy error\<close>
  "phase s =
     (if isPending s then Pending
      else if truthy (result s) then Success (result s)
      else (case error s of
              Some m \<Rightarrow> if m \<noteq> [] then Failure m else Idle
            | None \<Rightarrow> Idle))"


subsection \<open>The page with a generation counter\<close>

text \<open>
  The guard the specification describes, added to the page for comparison: a counter is
  advanced by every call of \<open>handleSearch\<close>, every call in flight carries the value the
  counter had when it started, and when a call settles its outcome is stored only if its
  value is the current one; the outcome of a superseded call is dropped.
\<close>

record guarded_state =
  page :: home_state
  generation :: nat
  tokens :: "nat list"

definition guarded_initial :: guarded_state where
  "guarded_initial = \<lparr>page = initial, generation = 0, tokens = []\<rparr>"

definition guarded_search :: "string option \<Rightarrow> network \<Rightarrow> string \<Rightarrow> guarded_state \<Rightarrow> guarded_state" where
  "guarded_search env net query g =
     \<lparr>page = handleSearch env net query (page g),
      generation = Suc (generation g),
      tokens = tokens g @ [Suc (generation g)]\<rparr>"

definition guarded_settle :: "string option \<Rightarrow> nat \<Rightarrow> guarded_state \<Rightarrow> guarded_state" where
  "guarded_settle env i g =
     (if i < length (pending (page g)) then
        (if tokens g ! i = generation g then
           g\<lparr>page := settle env i (page g),
             tokens := take i (tokens g) @ drop (Suc i) (tokens g)\<rparr>
         else
           g\<lparr>page := (page g)\<lparr>pending := take i (pending (page g)) @ drop (Suc i) (pending (page g))\<rparr>,
             tokens := take i (tokens g) @ drop (Suc i) (tokens g)\<rparr>)
      else g)"




subsection \<open>Example reports\<close>

definition example_attribute :: "string \<Rightarrow> string \<Rightarrow> rat \<Rightarrow> rat \<Rightarrow> PolicyAttribute" where
  "example_attribute i sev w p =
     \<lparr>id' = i, label = i, value' = ''stated in the policy'', severity = sev,
      evidence = ''quoted from the policy'', weight = Fin w, points_earned = Fin p\<rparr>"

definition example_report :: "PolicyAttribute list \<Rightarrow> AnalyzeResponse" where
  "example_report attrs =
     \<lparr>service_name = ''Netflix'', domain = ''netflix.com'',
      terms_url = ''https://netflix.com/terms'', privacy_url = ''https://netflix.com/privacy'',
      trust_score = Fin 72, grade = ''B'', analyzed_at = ''2025-01-01T00:00:00Z'',
      attributes = attrs, error' = None\<rparr>"

subsection \<open>Example responses\<close>

definition example_response :: "nat \<Rightarrow> string \<Rightarrow> (js_error + json) timed \<Rightarrow> http_response" where
  "example_response st txt b = \<lparr>status = st, statusText = txt, json_body = b\<rparr>"

definition example_data :: "string \<Rightarrow> json" where
  "example_data n =
     JObj [(''service_name'', JStr n), (''trust_score'', JNum ''72''), (''grade'', JStr ''B''),
           (''attributes'', JArr [])]"

definition slow_network :: "string \<Rightarrow> network" where
  \<comment> \<open>answers after 90 seconds\<close>
  "slow_network n = After 90000 (Inr (example_response 200 ''OK'' (After 90010 (Inr (example_data n)))))"

definition fast_network :: "string \<Rightarrow> network" where
  \<comment> \<open>answers after one second\<close>
  "fast_network n = After 1000 (Inr (example_response 200 ''OK'' (After 1010 (Inr (example_data n)))))"

section \<open>Properties\<close>

subsection \<open>Rounding to a double\<close>

lemma scale_down_spec:
  "2 ^ 52 \<le> x \<Longrightarrow>
   e \<le> scale_down x e \<and> 2 ^ 52 \<le> x / 2 powi (scale_down x e - e) \<and>
   x / 2 powi (scale_down x e - e) < 2 ^ 53"
proof (induction x e rule: scale_down.induct)
  case (1 x e)
  show ?case
  proof (cases "2 ^ 53 \<le> x")
    case True
    let ?e' = "scale_down (x / 2) (e + 1)"
    from True have h: "2 ^ 52 \<le> x / 2" by simp
    from "1.IH" [OF True h]
    have ih: "e + 1 \<le> ?e'" "2 ^ 52 \<le> x / 2 / 2 powi (?e' - (e + 1))"
      "x / 2 / 2 powi (?e' - (e + 1)) < 2 ^ 53" by simp_all
    have eq: "scale_down x e = ?e'" using True by (simp add: scale_down.simps [of x e])
    have "(2::rat) powi (?e' - e) = 2 powi ((?e' - (e + 1)) + 1)" by (simp add: algebra_simps)
    also have "\<dots> = 2 powi (?e' - (e + 1)) * 2" by (rule power_int_add_1) simp
    finally have p: "x / 2 powi (?e' - e) = x / 2 / 2 powi (?e' - (e + 1))" by simp
    from ih show ?thesis by (simp add: eq p)
  next
    case False
    then have "scale_down x e = e" by (simp add: scale_down.simps [of x e])
    with False "1.prems" show ?thesis by simp
  qed
qed

lemma scale_up_spec:
  "0 < x \<Longrightarrow> x < 2 ^ 53 \<Longrightarrow> - 1074 \<le> e \<Longrightarrow>
   - 1074 \<le> scale_up x e \<and> scale_up x e \<le> e \<and>
   x * 2 powi (e - scale_up x e) < 2 ^ 53 \<and>
   (scale_up x e = - 1074 \<or> 2 ^ 52 \<le> x * 2 powi (e - scale_up x e))"
proof (induction x e rule: scale_up.induct)
  case (1 x e)
  show ?case
  proof (cases "x < 2 ^ 52 \<and> - 1074 < e")
    case True
    let ?e' = "scale_up (2 * x) (e - 1)"
    from True "1.prems" have h: "0 < 2 * x" "2 * x < 2 ^ 53" "- 1074 \<le> e - 1" by simp_all
    from "1.IH" [OF True h]
    have ih: "- 1074 \<le> ?e'" "?e' \<le> e - 1" "2 * x * 2 powi (e - 1 - ?e') < 2 ^ 53"
      "?e' = - 1074 \<or> 2 ^ 52 \<le> 2 * x * 2 powi (e - 1 - ?e')" by simp_all
    have eq: "scale_up x e = ?e'" using True by (simp add: scale_up.simps [of x e])
    have "(2::rat) powi (e - ?e') = 2 powi ((e - 1 - ?e') + 1)" by (simp add: algebra_simps)
    also have "\<dots> = 2 powi (e - 1 - ?e') * 2" by (rule power_int_add_1) simp
    finally have p: "x * 2 powi (e - ?e') = 2 * x * 2 powi (e - 1 - ?e')" by simp
    from ih show ?thesis by (simp add: eq p)
  next
    case False
    then have "scale_up x e = e" by (subst scale_up.simps) auto
    with False "1.prems" show ?thesis by auto
  qed
qed

text \<open>The exponent is the one of the binade of \<open>x\<close>, and no smaller than \<open>- 1074\<close>.\<close>

lemma expo_spec:
  assumes "0 < x"
  shows "- 1074 \<le> expo x" and "x / 2 powi (expo x) < 2 ^ 53"
    and "expo x = - 1074 \<or> 2 ^ 52 \<le> x / 2 powi (expo x)"
proof -
  have "- 1074 \<le> expo x \<and> x / 2 powi (expo x) < 2 ^ 53 \<and>
        (expo x = - 1074 \<or> 2 ^ 52 \<le> x / 2 powi (expo x))"
  proof (cases "2 ^ 52 \<le> x")
    case True
    with scale_down_spec [OF True, of 0] show ?thesis by (simp add: expo_def)
  next
    case False
    then have "x < 2 ^ 53" by simp
    from scale_up_spec [OF assms this, of 0] False show ?thesis
      by (simp add: expo_def power_int_minus divide_inverse)
  qed
  then show "- 1074 \<le> expo x" and "x / 2 powi (expo x) < 2 ^ 53"
    and "expo x = - 1074 \<or> 2 ^ 52 \<le> x / 2 powi (expo x)" by simp_all
qed

lemma round_half_even_le: "t \<le> of_int k \<Longrightarrow> round_half_even t \<le> k"
  unfolding round_half_even_def Let_def by (auto simp: floor_le_iff)

lemma round_half_even_ge: "of_int k \<le> t \<Longrightarrow> k \<le> round_half_even t"
  unfolding round_half_even_def Let_def by (auto simp: le_floor_iff) linarith+

lemma round_half_even_of_int: "round_half_even (of_int k) = k"
  by (simp add: round_half_even_def)

text \<open>
  Rounding does not cross a double: a number between 0 and a normal double \<open>M * 2 powi E\<close>
  rounds to a finite number between 0 and that double.
\<close>

lemma round64_bounded:
  assumes "0 \<le> x" and "x \<le> of_int M * 2 powi E"
    and "2 ^ 52 \<le> M" and "M < 2 ^ 53" and "- 1074 \<le> E" and "E \<le> 971"
  shows "\<exists>v. round64 x = Fin v \<and> 0 \<le> v \<and> v \<le> of_int M * 2 powi E"
proof (cases "x = 0")
  case True
  from assms(3) have "(0::rat) \<le> of_int M" by simp
  then have "(0::rat) \<le> of_int M * 2 powi E" by simp
  with True show ?thesis by (simp add: round64_def)
next
  case False
  with assms(1) have pos: "0 < x" by simp
  define e where "e = expo x"
  define B :: rat where "B = of_int M * 2 powi E"
  have p: "(0::rat) < 2 powi e" by simp
  from expo_spec [OF pos]
  have lo: "e = - 1074 \<or> 2 ^ 52 \<le> x / 2 powi e" by (simp add: e_def)
  have M53: "(of_int M :: rat) < 2 ^ 53" using assms(4) by (metis of_int_less_numeral_power_cancel_iff)
  have eE: "e \<le> E"
  proof (rule ccontr)
    assume "\<not> e \<le> E"
    then have l: "E + 1 \<le> e" by simp
    with assms(5) lo have "2 ^ 52 \<le> x / 2 powi e" by auto
    with p have "2 ^ 52 * 2 powi e \<le> x" by (simp add: pos_le_divide_eq)
    also have "x \<le> B" using assms(2) by (simp add: B_def)
    also have "B < 2 ^ 53 * 2 powi E" unfolding B_def using M53 by simp
    also have "\<dots> = 2 ^ 52 * 2 powi (E + 1)" by (simp add: power_int_add_1)
    also have "\<dots> \<le> 2 ^ 52 * 2 powi e"
      using l by (simp add: power_int_increasing)
    finally show False by simp
  qed
  define K where "K = M * 2 ^ nat (E - e)"
  have "(2::rat) powi E = 2 powi ((E - e) + e)" by simp
  also have "\<dots> = 2 powi (E - e) * 2 powi e" by (rule power_int_add) simp
  also have "(2::rat) powi (E - e) = 2 ^ nat (E - e)" using eE by (simp add: power_int_nonneg_exp)
  finally have KB: "of_int K * 2 powi e = B" by (simp add: K_def B_def)
  have "x / 2 powi e \<le> B / 2 powi e" using assms(2) p by (simp add: B_def divide_right_mono)
  also have "B / 2 powi e = of_int K" using KB [symmetric] by simp
  finally have mK: "round_half_even (x / 2 powi e) \<le> K" by (rule round_half_even_le)
  have "(of_int 0 :: rat) \<le> x / 2 powi e" using pos by simp
  then have m0: "0 \<le> round_half_even (x / 2 powi e)" by (rule round_half_even_ge)
  let ?v = "of_int (round_half_even (x / 2 powi e)) * 2 powi e :: rat"
  have v0: "0 \<le> ?v" using m0 by simp
  have "?v \<le> of_int K * 2 powi e" using mK by (simp add: mult_right_mono)
  then have vB: "?v \<le> B" by (simp add: KB)
  have "B < 2 ^ 53 * 2 powi E" unfolding B_def using M53 by simp
  also have "\<dots> \<le> 2 ^ 53 * 2 powi 971"
  proof -
    have "(2::rat) powi E \<le> 2 powi 971" using assms(6) by (rule power_int_increasing) simp
    then show ?thesis by (rule mult_left_mono) simp
  qed
  also have "\<dots> = 2 ^ 1024" by simp
  finally have "B < 2 ^ 1024" .
  with vB have "\<not> 2 ^ 1024 \<le> ?v" by simp
  then have "round64 x = Fin ?v" using pos by (simp add: round64_def Let_def e_def)
  with v0 vB show ?thesis by (simp add: B_def)
qed

lemma round64_unit:
  assumes "0 \<le> x" and "x \<le> 1"
  shows "\<exists>v. round64 x = Fin v \<and> 0 \<le> v \<and> v \<le> 1"
proof -
  have "(of_int (2 ^ 52) :: rat) * 2 powi (- 52) = 1" by (simp add: power_int_minus)
  with round64_bounded [of x "2 ^ 52" "- 52"] assms show ?thesis by simp
qed

lemma round64_percent:
  assumes "0 \<le> x" and "x \<le> 100"
  shows "\<exists>v. round64 x = Fin v \<and> 0 \<le> v \<and> v \<le> 100"
proof -
  have "(of_int (100 * 2 ^ 46) :: rat) * 2 powi (- 46) = 100" by (simp add: power_int_minus)
  with round64_bounded [of x "100 * 2 ^ 46" "- 46"] assms show ?thesis by simp
qed


lemma expo_unique:
  assumes "0 < x" and "- 1074 \<le> e" and "2 ^ 52 * 2 powi e \<le> x" and "x < 2 ^ 53 * 2 powi e"
  shows "expo x = e"
proof -
  define e' where "e' = expo x"
  have p: "(0::rat) < 2 powi e'" by simp
  from expo_spec [OF assms(1)]
  have lo: "- 1074 \<le> e'" and up: "x < 2 ^ 53 * 2 powi e'"
    and n: "e' = - 1074 \<or> 2 ^ 52 * 2 powi e' \<le> x"
    using p by (simp_all add: e'_def pos_divide_less_eq pos_le_divide_eq)
  have "\<not> e' < e"
  proof
    assume "e' < e"
    then have "e' + 1 \<le> e" by simp
    then have "(2::rat) powi (e' + 1) \<le> 2 powi e" by (rule power_int_increasing) simp
    then have "2 ^ 52 * (2::rat) powi (e' + 1) \<le> 2 ^ 52 * 2 powi e" by (rule mult_left_mono) simp
    moreover have "2 ^ 53 * (2::rat) powi e' = 2 ^ 52 * 2 powi (e' + 1)" by (simp add: power_int_add_1)
    ultimately show False using up assms(3) by simp
  qed
  moreover have "\<not> e < e'"
  proof
    assume l: "e < e'"
    with assms(2) n have "2 ^ 52 * 2 powi e' \<le> x" by auto
    moreover from l have "e + 1 \<le> e'" by simp
    then have "(2::rat) powi (e + 1) \<le> 2 powi e'" by (rule power_int_increasing) simp
    then have "2 ^ 52 * (2::rat) powi (e + 1) \<le> 2 ^ 52 * 2 powi e'" by (rule mult_left_mono) simp
    moreover have "2 ^ 53 * (2::rat) powi e = 2 ^ 52 * 2 powi (e + 1)" by (simp add: power_int_add_1)
    ultimately show False using assms(4) by simp
  qed
  ultimately show ?thesis by (simp add: e'_def)
qed

lemma round_half_even_unique:
  assumes "\<bar>of_int m - t\<bar> < 1 / 2"
  shows "round_half_even t = m"
proof (cases "of_int m \<le> t")
  case True
  with assms have "t < of_int m + 1" by simp
  with True have f: "\<lfloor>t\<rfloor> = m" by (simp add: floor_unique)
  from True assms have "t - of_int m < 1 / 2" by simp
  with f show ?thesis by (simp add: round_half_even_def)
next
  case False
  with assms have "of_int (m - 1) \<le> t" and "t < of_int (m - 1) + 1" by simp_all
  then have f: "\<lfloor>t\<rfloor> = m - 1" by (rule floor_unique)
  from False assms have "1 / 2 < t - of_int (m - 1)" by simp
  with f show ?thesis by (simp add: round_half_even_def Let_def)
qed

text \<open>
  The rounding of a positive number in the range of the normal doubles: with \<open>e\<close> the
  exponent of its binade and \<open>m\<close> the integer nearest to the scaled number, it is
  \<open>m * 2 powi e\<close>, or an infinity from \<open>2 ^ 1024\<close> on.
\<close>

lemma round64_normal:
  assumes "0 < x" and "- 1074 \<le> e" and "2 ^ 52 * 2 powi e \<le> x" and "x < 2 ^ 53 * 2 powi e"
    and "\<bar>of_int m - x / 2 powi e\<bar> < 1 / 2"
  shows "round64 x =
         (if 2 ^ 1024 \<le> (of_int m * 2 powi e :: rat) then PosInf else Fin (of_int m * 2 powi e))"
proof -
  have e: "expo x = e" using assms(1-4) by (rule expo_unique)
  have m: "round_half_even (x / 2 powi e) = m" using assms(5) by (rule round_half_even_unique)
  show ?thesis using assms(1) by (simp add: round64_def Let_def e m)
qed

text \<open>A normal double is its own rounding.\<close>

lemma round64_exact:
  assumes "2 ^ 52 \<le> M" and "M < 2 ^ 53" and "- 1074 \<le> E" and "E \<le> 971"
  shows "round64 (of_int M * 2 powi E) = Fin (of_int M * 2 powi E)"
proof -
  let ?x = "of_int M * 2 powi E :: rat"
  have "(of_int (2 ^ 52) :: rat) \<le> of_int M" using assms(1) by (simp only: of_int_le_iff)
  then have M52: "(2 ^ 52 :: rat) \<le> of_int M" by simp
  have M53: "(of_int M :: rat) < 2 ^ 53" using assms(2) by (metis of_int_less_numeral_power_cancel_iff)
  have pos: "0 < ?x" using M52 by (simp add: zero_less_mult_iff) 
  have lo: "2 ^ 52 * 2 powi E \<le> ?x" using M52 by simp
  have up: "?x < 2 ^ 53 * 2 powi E" using M53 by simp
  have near: "\<bar>of_int M - ?x / 2 powi E\<bar> < 1 / 2" by simp
  have "(2::rat) powi E \<le> 2 powi 971" using assms(4) by (rule power_int_increasing) simp
  then have "2 ^ 53 * (2::rat) powi E \<le> 2 ^ 53 * 2 powi 971" by (rule mult_left_mono) simp
  also have "\<dots> = 2 ^ 1024" by simp
  finally have "2 ^ 53 * (2::rat) powi E \<le> 2 ^ 1024" .
  with up have "?x < 2 ^ 1024" by (rule less_le_trans)
  then have "\<not> 2 ^ 1024 \<le> ?x" by (simp only: not_le)
  with round64_normal [OF pos assms(3) lo up near] show ?thesis by simp
qed

lemma round64_half: "round64 (1 / 2) = Fin (1 / 2)"
  using round64_normal [where x = "1 / 2" and e = "- 53" and m = "2 ^ 52"]
  by (simp add: power_int_minus)

lemma round64_50: "round64 50 = Fin 50"
  using round64_normal [where x = 50 and e = "- 47" and m = "50 * 2 ^ 47"]
  by (simp add: power_int_minus)

lemma round64_3_2: "round64 (3 / 2) = Fin (3 / 2)"
  using round64_normal [where x = "3 / 2" and e = "- 52" and m = "3 * 2 ^ 51"]
  by (simp add: power_int_minus)

lemma round64_150: "round64 150 = Fin 150"
  using round64_normal [where x = 150 and e = "- 45" and m = "150 * 2 ^ 45"]
  by (simp add: power_int_minus)

lemma round64_third: "round64 (1 / 3) = Fin (6004799503160661 / 2 ^ 54)"
  using round64_normal [where x = "1 / 3" and e = "- 54" and m = 6004799503160661]
  by (simp add: power_int_minus)

lemma round64_third_percent:
  "round64 (6004799503160661 / 2 ^ 54 * 100) = Fin (2345624805922133 / 2 ^ 46)"
  using round64_normal [where x = "6004799503160661 / 2 ^ 54 * 100" and e = "- 47"
      and m = 4691249611844266]
  by (simp add: power_int_minus)

lemma round64_2_1023: "round64 (2 ^ 1023) = Fin (2 ^ 1023)"
  using round64_normal [where x = "2 ^ 1023" and e = 971 and m = "2 ^ 52"]
  by simp

lemma round64_overflow: "round64 (2 ^ 1023 * 100) = PosInf"
  using round64_normal [where x = "2 ^ 1023 * 100" and e = 977 and m = "100 * 2 ^ 46"]
  by simp

text \<open>The rounded significand is within one half of the scaled number.\<close>

lemma round_half_even_near: "\<bar>of_int (round_half_even t) - t\<bar> \<le> 1 / 2"
proof -
  define f where "f = \<lfloor>t\<rfloor>"
  have b: "of_int f \<le> t" "t < of_int f + 1" unfolding f_def by linarith+
  have r: "round_half_even t = f \<and> t - of_int f \<le> 1 / 2 \<or>
           round_half_even t = f + 1 \<and> 1 / 2 \<le> t - of_int f"
    unfolding round_half_even_def Let_def f_def [symmetric] by auto
  then show ?thesis
  proof
    assume "round_half_even t = f \<and> t - of_int f \<le> 1 / 2"
    with b show ?thesis by simp
  next
    assume "round_half_even t = f + 1 \<and> 1 / 2 \<le> t - of_int f"
    with b show ?thesis by simp
  qed
qed

subsection \<open>Score aggregation\<close>

lemma ScoreBreakdown_width:
  "breakdown_width (ScoreBreakdown data) = js_times (js_div (totalEarned data) (totalPossible data)) 100"
  by (simp add: ScoreBreakdown_def)

lemma ScoreBreakdown_zero:
  "totalPossible data = Fin 0 \<Longrightarrow> breakdown_width (ScoreBreakdown data) \<in> {NaN, PosInf, NegInf}"
  by (cases "totalEarned data") (simp_all add: ScoreBreakdown_def)

text \<open>
  C1. The aggregate fill is \<open>totalEarned / totalPossible * 100\<close>, but the zero case is not
  guarded: for a report without attributes both sums are 0 and the width of the bar is
  \<^verbatim>\<open>NaN\<close>, not 0. (The per-attribute bar of \<open>fillPercent\<close> does test its divisor.)
\<close>

theorem ScoreBreakdown_empty_report_NaN:
  "totalPossible (data\<lparr>attributes := []\<rparr>) = Fin 0 \<and>
   breakdown_width (ScoreBreakdown (data\<lparr>attributes := []\<rparr>)) = NaN"
  by (simp add: ScoreBreakdown_def totalPossible_def totalEarned_def)

subsection \<open>Per-attribute bars\<close>

lemma fillPercent_15_of_10: "fillPercent (example_attribute ''encryption'' ''good'' 10 15) = Fin 150"
  by (simp add: fillPercent_def example_attribute_def round64_3_2 round64_150)

lemma fillPercent_1_of_3:
  "fillPercent (example_attribute ''encryption'' ''good'' 3 1) = Fin (2345624805922133 / 2 ^ 46)"
  using round64_third round64_third_percent by (simp add: fillPercent_def example_attribute_def)

lemma fillPercent_overflow:
  "fillPercent (example_attribute ''encryption'' ''good'' 1 (2 ^ 1023)) = PosInf"
  using round64_2_1023 round64_overflow by (simp add: fillPercent_def example_attribute_def)

text \<open>
  C4. The fill percent of an attribute's bar is the value of \<^verbatim>\<open>points_earned / weight * 100\<close>,
  the quotient rounded to a double and its hundredfold rounded again, when the weight is
  greater than 0, and it is 0 otherwise (a zero weight included). It lies between 0 and 100
  whenever \<open>0 \<le> points_earned \<le> weight\<close> and \<open>points_earned\<close> is finite. For an infinite weight
  that was fully earned it is \<^verbatim>\<open>NaN\<close>. Nothing clamps the value.
\<close>

theorem fillPercent_formula_and_range:
  "(js_gt (weight a) 0 \<longrightarrow>
      fillPercent a = js_times (js_div (points_earned a) (weight a)) 100) \<and>
   (\<not> js_gt (weight a) 0 \<longrightarrow> fillPercent a = Fin 0) \<and>
   (weight a = Fin w \<and> points_earned a = Fin p \<and> 0 < w \<and> round64 (p / w) = Fin q \<longrightarrow>
      fillPercent a = round64 (q * 100)) \<and>
   (weight a = Fin w \<and> points_earned a = Fin p \<and> 0 \<le> p \<and> p \<le> w \<longrightarrow>
      (\<exists>v. fillPercent a = Fin v \<and> 0 \<le> v \<and> v \<le> 100)) \<and>
   (weight a = PosInf \<and> points_earned a = Fin p \<longrightarrow> fillPercent a = Fin 0) \<and>
   (weight a = PosInf \<and> points_earned a = PosInf \<longrightarrow> fillPercent a = NaN)"
proof -
  have range: "\<exists>v. fillPercent a = Fin v \<and> 0 \<le> v \<and> v \<le> 100"
    if w: "weight a = Fin w" and p: "points_earned a = Fin p" and "0 \<le> p" and "p \<le> w"
  proof (cases "0 < w")
    case True
    with that have "0 \<le> p / w" and "p / w \<le> 1" by simp_all
    from round64_unit [OF this] obtain q where q: "round64 (p / w) = Fin q" "0 \<le> q" "q \<le> 1"
      by blast
    then have "0 \<le> q * 100" and "q * 100 \<le> 100" by simp_all
    from round64_percent [OF this] obtain v where "round64 (q * 100) = Fin v" "0 \<le> v" "v \<le> 100"
      by blast
    with True w p q show ?thesis by (simp add: fillPercent_def)
  next
    case False
    with w show ?thesis by (simp add: fillPercent_def)
  qed
  have two: "fillPercent a = round64 (q * 100)"
    if "weight a = Fin w" and "points_earned a = Fin p" and "0 < w" and "round64 (p / w) = Fin q"
    using that by (simp add: fillPercent_def)
  have inf: "fillPercent a = Fin 0" if "weight a = PosInf" and "points_earned a = Fin p"
    using that by (simp add: fillPercent_def round64_def)
  have nan: "fillPercent a = NaN" if "weight a = PosInf" and "points_earned a = PosInf"
    using that by (simp add: fillPercent_def)
  show ?thesis using range two inf nan by (simp add: fillPercent_def)
qed

theorem fillPercent_formula_and_range_witness:
  "(\<exists>v. fillPercent (example_attribute ''encryption'' ''good'' 3 1) = Fin v \<and> 0 \<le> v \<and> v \<le> 100) \<and>
   fillPercent (example_attribute ''encryption'' ''good'' 3 1) = Fin (2345624805922133 / 2 ^ 46) \<and>
   fillPercent (example_attribute ''encryption'' ''good'' 0 5) = Fin 0 \<and>
   fillPercent ((example_attribute ''encryption'' ''good'' 0 5)\<lparr>weight := PosInf\<rparr>) = Fin 0 \<and>
   fillPercent ((example_attribute ''encryption'' ''good'' 0 5)
                  \<lparr>weight := PosInf, points_earned := PosInf\<rparr>) = NaN"
proof -
  let ?a = "example_attribute ''encryption'' ''good'' 3 1"
  let ?b = "example_attribute ''encryption'' ''good'' 0 5"
  have a: "weight ?a = Fin 3" "points_earned ?a = Fin 1"
    by (simp_all add: example_attribute_def)
  have n: "(0::rat) \<le> 1" "(1::rat) \<le> 3" "(0::rat) < 3" by simp_all
  note T = fillPercent_formula_and_range [of ?a 3 1 "6004799503160661 / 2 ^ 54"]
  from T a n have 1: "\<exists>v. fillPercent ?a = Fin v \<and> 0 \<le> v \<and> v \<le> 100" by blast
  from T a n round64_third
  have "fillPercent ?a = round64 (6004799503160661 / 2 ^ 54 * 100)" by blast
  then have 2: "fillPercent ?a = Fin (2345624805922133 / 2 ^ 46)"
    by (simp only: round64_third_percent)
  have b: "\<not> js_gt (weight ?b) 0" by (simp add: example_attribute_def)
  from fillPercent_formula_and_range [of ?b] b have 3: "fillPercent ?b = Fin 0" by blast
  have c: "weight (?b\<lparr>weight := PosInf\<rparr>) = PosInf" "points_earned (?b\<lparr>weight := PosInf\<rparr>) = Fin 5"
    by (simp_all add: example_attribute_def)
  from fillPercent_formula_and_range [of "?b\<lparr>weight := PosInf\<rparr>" _ 5] c
  have 4: "fillPercent (?b\<lparr>weight := PosInf\<rparr>) = Fin 0" by blast
  have d: "weight (?b\<lparr>weight := PosInf, points_earned := PosInf\<rparr>) = PosInf"
    "points_earned (?b\<lparr>weight := PosInf, points_earned := PosInf\<rparr>) = PosInf" by simp_all
  from fillPercent_formula_and_range [of "?b\<lparr>weight := PosInf, points_earned := PosInf\<rparr>"] d
  have 5: "fillPercent (?b\<lparr>weight := PosInf, points_earned := PosInf\<rparr>) = NaN" by blast
  from 1 2 3 4 5 show ?thesis by blast
qed

text \<open>
  An attribute that earned 15 of 10 points has a bar of 150 percent, and an attribute with
  an infinite weight, fully earned, satisfies \<open>0 \<le> points_earned \<le> weight\<close> and has a bar
  that is not a number.
\<close>

theorem fillPercent_not_clamped_counterexample:
  "fillPercent (example_attribute ''encryption'' ''good'' 10 15) = Fin 150 \<and>
   \<not> (\<exists>v. fillPercent (example_attribute ''encryption'' ''good'' 10 15) = Fin v \<and>
          0 \<le> v \<and> v \<le> 100) \<and>
   fillPercent ((example_attribute ''encryption'' ''good'' 10 15)
                  \<lparr>weight := PosInf, points_earned := PosInf\<rparr>) = NaN"
  by (simp add: fillPercent_15_of_10) (simp add: fillPercent_def)



subsection \<open>Grade colours\<close>

lemma getGradeColor_known:
  "getGradeColor ''A'' = JString ''#22c55e''"
  "getGradeColor ''B'' = JString ''#84cc16''"
  "getGradeColor ''C'' = JString ''#eab308''"
  "getGradeColor ''D'' = JString ''#f97316''"
  "getGradeColor ''F'' = JString ''#ef4444''"
  by (simp_all add: getGradeColor_def get_property_def colors_def)

lemma getGradeColor_fallback:
  "g \<notin> {''A'', ''B'', ''C'', ''D'', ''F''} \<Longrightarrow> g \<notin> set Object_prototype_keys \<Longrightarrow>
   getGradeColor g = JString ''#6b7280''"
  by (simp add: getGradeColor_def get_property_def colors_def)

lemma getGradeColor_Z: "getGradeColor ''Z'' = JString ''#6b7280''"
  by (simp add: getGradeColor_def get_property_def colors_def Object_prototype_keys_def)

text \<open>
  C8. The five grades have their colours and an unknown grade such as \<open>Z\<close> falls back to
  gray, but a grade that names a member of \<^verbatim>\<open>Object.prototype\<close> does not: the lookup finds the
  inherited member, which is truthy, and returns it in place of the gray fallback.
\<close>

theorem getGradeColor_inherited_key:
  "getGradeColor ''constructor'' = JInherited ''constructor'' \<and>
   getGradeColor ''constructor'' \<noteq> JString ''#6b7280''"
  by (simp add: getGradeColor_def get_property_def colors_def Object_prototype_keys_def)

subsection \<open>Categorized display\<close>


lemma foldl_upd_last:
  "foldl (\<lambda>m a. m(f a \<mapsto> a)) m0 xs k =
     (if filter (\<lambda>a. f a = k) xs = [] then m0 k else Some (last (filter (\<lambda>a. f a = k) xs)))"
  by (induction xs arbitrary: m0) auto

lemma attrMap_last:
  "attrMap attrs k =
     (if filter (\<lambda>a. id' a = k) attrs = [] then None
      else Some (last (filter (\<lambda>a. id' a = k) attrs)))"
  by (simp add: attrMap_def foldl_upd_last)

lemma filter_id_empty: "(filter (\<lambda>a. id' a = k) attrs = []) = (k \<notin> id' ` set attrs)"
  by (auto simp: filter_empty_conv)

lemma attrMap_SomeD: "attrMap attrs k = Some a \<Longrightarrow> a \<in> set attrs \<and> id' a = k"
proof -
  assume h: "attrMap attrs k = Some a"
  let ?ys = "filter (\<lambda>a. id' a = k) attrs"
  from h have ne: "?ys \<noteq> []" and a: "a = last ?ys"
    by (auto simp: attrMap_last split: if_splits)
  from ne have "last ?ys \<in> set ?ys" by (rule last_in_set)
  with a show ?thesis by simp
qed

lemma attrMap_None: "(attrMap attrs k = None) = (k \<notin> id' ` set attrs)"
  by (simp add: attrMap_last filter_id_empty)

lemma catAttrs_ids:
  "map id' (catAttrs (attrMap attrs) c) = filter (\<lambda>i. i \<in> id' ` set attrs) (ids c)"
proof -
  have "map id' (map the (filter (\<lambda>a. a \<noteq> None) (map (attrMap attrs) is))) =
        filter (\<lambda>i. i \<in> id' ` set attrs) is" for "is"
  proof (induction "is")
    case Nil
    show ?case by simp
  next
    case (Cons i "is")
    show ?case
    proof (cases "attrMap attrs i")
      case None
      with Cons show ?thesis using attrMap_None [of attrs i] by simp
    next
      case (Some a)
      with attrMap_SomeD [OF Some] attrMap_None [of attrs i] Cons show ?thesis by auto
    qed
  qed
  then show ?thesis by (simp add: catAttrs_def)
qed

lemma catAttrs_last:
  "a \<in> set (catAttrs (attrMap attrs) c) \<Longrightarrow>
   a \<in> set attrs \<and> a = last (filter (\<lambda>b. id' b = id' a) attrs)"
proof -
  assume "a \<in> set (catAttrs (attrMap attrs) c)"
  then obtain i where i: "attrMap attrs i = Some a"
    by (auto simp: catAttrs_def)
  from attrMap_SomeD [OF i] have a: "a \<in> set attrs" and k: "id' a = i" by simp_all
  from i k show ?thesis using a by (auto simp: attrMap_last split: if_splits)
qed

lemma catAttrs_empty:
  "(catAttrs (attrMap attrs) c = []) = (filter (\<lambda>i. i \<in> id' ` set attrs) (ids c) = [])"
  using catAttrs_ids [of attrs c] by (metis map_is_Nil_conv)

lemma displayed_gen:
  "map the (filter (\<lambda>s. s \<noteq> None)
      (map (\<lambda>cat. CategorySection (title cat) (icon cat) (catAttrs m cat)) cs)) =
   map (\<lambda>cat. \<lparr>sec_title = title cat, sec_icon = icon cat,
                sec_dots = map (\<lambda>a. (id' a, SeverityDot (severity a))) (catAttrs m cat),
                sec_rows = map (\<lambda>attr. AttributeRow attr False) (catAttrs m cat)\<rparr>)
     (filter (\<lambda>cat. catAttrs m cat \<noteq> []) cs)"
  by (induction cs) (simp_all add: CategorySection_def)

lemma displayed_categories_eq:
  "displayed_categories data =
   map (\<lambda>cat. \<lparr>sec_title = title cat, sec_icon = icon cat,
                sec_dots = map (\<lambda>a. (id' a, SeverityDot (severity a)))
                             (catAttrs (attrMap (attributes data)) cat),
                sec_rows = map (\<lambda>attr. AttributeRow attr False)
                             (catAttrs (attrMap (attributes data)) cat)\<rparr>)
     (filter (\<lambda>cat. filter (\<lambda>i. i \<in> id' ` set (attributes data)) (ids cat) \<noteq> []) CATEGORIES)"
  by (simp only: displayed_categories_def NutritionLabel_def nutrition_label.simps displayed_gen catAttrs_empty)

lemma row_ids: "map (id' \<circ> row_attr) (map (\<lambda>attr. AttributeRow attr False) xs) = map id' xs"
  by (simp add: AttributeRow_def comp_def)

lemma displayed_summary:
  "map (\<lambda>s. (sec_title s, map (id' \<circ> row_attr) (sec_rows s))) (displayed_categories data) =
   map (\<lambda>cat. (title cat, filter (\<lambda>i. i \<in> id' ` set (attributes data)) (ids cat)))
     (filter (\<lambda>cat. filter (\<lambda>i. i \<in> id' ` set (attributes data)) (ids cat) \<noteq> []) CATEGORIES)"
  by (simp add: displayed_categories_eq comp_def AttributeRow_def catAttrs_ids [unfolded comp_def, symmetric])


lemma displayed_titles:
  "map sec_title (displayed_categories data) =
   map title (filter (\<lambda>c. \<exists>i \<in> set (ids c). i \<in> id' ` set (attributes data)) CATEGORIES)"
proof -
  have e: "filter (\<lambda>c. filter (\<lambda>i. i \<in> id' ` set (attributes data)) (ids c) \<noteq> []) CATEGORIES =
           filter (\<lambda>c. \<exists>i \<in> set (ids c). i \<in> id' ` set (attributes data)) CATEGORIES"
    by (rule filter_cong) (auto simp: filter_empty_conv)
  show ?thesis by (simp add: displayed_categories_eq comp_def e)
qed

lemma displayed_titles_subseq:
  "subseq (map sec_title (displayed_categories data))
     [''Data Practices'', ''Your Rights'', ''Security & Retention'', ''Legal Terms'']"
proof -
  have "subseq (map title (filter (\<lambda>c. \<exists>i \<in> set (ids c). i \<in> id' ` set (attributes data)) CATEGORIES))
          (map title CATEGORIES)"
    by (intro subseq_map subseq_filter_left)
  moreover have "map title CATEGORIES =
      [''Data Practices'', ''Your Rights'', ''Security & Retention'', ''Legal Terms'']"
    by (simp add: CATEGORIES_def)
  ultimately show ?thesis by (simp only: displayed_titles)
qed

lemma displayed_section:
  assumes "s \<in> set (displayed_categories data)"
  shows "sec_rows s \<noteq> [] \<and>
         (\<exists>c \<in> set CATEGORIES. sec_title s = title c \<and> sec_icon s = icon c \<and>
            map (id' \<circ> row_attr) (sec_rows s) =
              filter (\<lambda>i. i \<in> id' ` set (attributes data)) (ids c)) \<and>
         row_attr ` set (sec_rows s) \<subseteq> set (attributes data) \<and>
         (\<forall>r \<in> set (sec_rows s). row_attr r = last (filter (\<lambda>a. id' a = id' (row_attr r)) (attributes data)))"
proof -
  let ?A = "attributes data"
  from assms obtain c where c: "c \<in> set CATEGORIES"
    and ne: "filter (\<lambda>i. i \<in> id' ` set ?A) (ids c) \<noteq> []"
    and s: "s = \<lparr>sec_title = title c, sec_icon = icon c,
                sec_dots = map (\<lambda>a. (id' a, SeverityDot (severity a))) (catAttrs (attrMap ?A) c),
                sec_rows = map (\<lambda>attr. AttributeRow attr False) (catAttrs (attrMap ?A) c)\<rparr>"
    by (auto simp: displayed_categories_eq)
  from ne have ne': "catAttrs (attrMap ?A) c \<noteq> []" by (simp add: catAttrs_empty)
  have rows: "sec_rows s = map (\<lambda>attr. AttributeRow attr False) (catAttrs (attrMap ?A) c)"
    by (simp add: s)
  have ra: "map row_attr (sec_rows s) = catAttrs (attrMap ?A) c"
    by (simp add: rows AttributeRow_def comp_def)
  have 1: "sec_rows s \<noteq> []" using ne' by (simp add: rows)
  have "map (id' \<circ> row_attr) (sec_rows s) = map id' (map row_attr (sec_rows s))" by simp
  also have "\<dots> = filter (\<lambda>i. i \<in> id' ` set ?A) (ids c)" by (simp only: ra catAttrs_ids)
  finally have 2: "\<exists>c \<in> set CATEGORIES. sec_title s = title c \<and> sec_icon s = icon c \<and>
            map (id' \<circ> row_attr) (sec_rows s) = filter (\<lambda>i. i \<in> id' ` set ?A) (ids c)"
    using c by (auto simp: s)
  have in_cat: "row_attr r \<in> set (catAttrs (attrMap ?A) c)" if "r \<in> set (sec_rows s)" for r
  proof -
    from that have "row_attr r \<in> set (map row_attr (sec_rows s))" by simp
    then show ?thesis by (simp only: ra)
  qed
  have 3: "row_attr ` set (sec_rows s) \<subseteq> set ?A"
    using in_cat catAttrs_last by blast
  have 4: "\<forall>r \<in> set (sec_rows s). row_attr r = last (filter (\<lambda>a. id' a = id' (row_attr r)) ?A)"
    using in_cat catAttrs_last by blast
  from 1 2 3 4 show ?thesis by blast
qed

lemma displayed_row_in_taxonomy:
  assumes "s \<in> set (displayed_categories data)" and "r \<in> set (sec_rows s)"
  shows "id' (row_attr r) \<in> set (concat (map ids CATEGORIES))"
proof -
  from displayed_section [OF assms(1)] obtain c where c: "c \<in> set CATEGORIES"
    and m: "map (id' \<circ> row_attr) (sec_rows s) = filter (\<lambda>i. i \<in> id' ` set (attributes data)) (ids c)"
    by blast
  from assms(2) have "id' (row_attr r) \<in> set (map (id' \<circ> row_attr) (sec_rows s))" by auto
  then have "id' (row_attr r) \<in> set (ids c)" by (simp only: m) simp
  with c show ?thesis by auto
qed

lemma displayed_four_ids:
  assumes "id' ` set (attributes data) =
             {''data_selling'', ''account_deletion'', ''encryption'', ''unilateral_changes''}"
  shows "map (\<lambda>s. (sec_title s, map (id' \<circ> row_attr) (sec_rows s))) (displayed_categories data) =
         [(''Data Practices'', [''data_selling'']), (''Your Rights'', [''account_deletion'']),
          (''Security & Retention'', [''encryption'']), (''Legal Terms'', [''unilateral_changes''])]"
  by (simp only: displayed_summary assms) (simp add: CATEGORIES_def)



lemma displayed_all_row_ids:
  "map (id' \<circ> row_attr) (concat (map sec_rows (displayed_categories data))) =
   filter (\<lambda>i. i \<in> id' ` set (attributes data)) (concat (map ids CATEGORIES))"
proof -
  let ?P = "\<lambda>i. i \<in> id' ` set (attributes data)"
  have c: "concat (map (\<lambda>c. filter ?P (ids c)) (filter (\<lambda>c. filter ?P (ids c) \<noteq> []) cs)) =
           filter ?P (concat (map ids cs))" for cs :: "category list"
    by (induction cs) auto
  have "map (id' \<circ> row_attr) (concat (map sec_rows (displayed_categories data))) =
        concat (map snd (map (\<lambda>s. (sec_title s, map (id' \<circ> row_attr) (sec_rows s)))
                           (displayed_categories data)))"
    by (simp add: map_concat comp_def)
  also have "\<dots> = concat (map (\<lambda>c. filter ?P (ids c))
                      (filter (\<lambda>c. filter ?P (ids c) \<noteq> []) CATEGORIES))"
    by (simp only: displayed_summary) (simp add: comp_def)
  finally show ?thesis by (simp only: c)
qed

lemma taxonomy_ids_distinct: "distinct (concat (map ids CATEGORIES))"
  by (simp add: CATEGORIES_def)

lemma distinct_map_filter_le1:
  "distinct (map f xs) \<Longrightarrow> length (filter (\<lambda>x. f x = k) xs) \<le> 1"
proof (induction xs)
  case Nil
  show ?case by simp
next
  case (Cons x xs)
  show ?case
  proof (cases "f x = k")
    case True
    with Cons.prems have "filter (\<lambda>x. f x = k) xs = []"
      by (auto simp: filter_empty_conv image_iff)
    with True show ?thesis by simp
  next
    case False
    with Cons show ?thesis by simp
  qed
qed

text \<open>
  C7. The categorized display goes through the four taxonomy categories in their declared
  order (Data Practices, Your Rights, Security & Retention, Legal Terms) and shows the
  categories that have a matching attribute, each with the attributes found for its listed
  ids, in the order of the taxonomy's ids. Every row is an attribute of the report and
  carries a taxonomy id, so an attribute whose id the taxonomy does not list appears
  nowhere. A report whose ids are exactly data_selling, account_deletion, encryption and
  unilateral_changes gives four categories of one row each.
\<close>

theorem categorized_display:
  "map sec_title (displayed_categories data) =
     map title (filter (\<lambda>c. \<exists>i \<in> set (ids c). i \<in> id' ` set (attributes data)) CATEGORIES) \<and>
   subseq (map sec_title (displayed_categories data))
     [''Data Practices'', ''Your Rights'', ''Security & Retention'', ''Legal Terms''] \<and>
   (\<forall>s \<in> set (displayed_categories data).
      sec_rows s \<noteq> [] \<and>
      (\<exists>c \<in> set CATEGORIES. sec_title s = title c \<and> sec_icon s = icon c \<and>
         map (id' \<circ> row_attr) (sec_rows s) =
           filter (\<lambda>i. i \<in> id' ` set (attributes data)) (ids c)) \<and>
      row_attr ` set (sec_rows s) \<subseteq> set (attributes data) \<and>
      (\<forall>r \<in> set (sec_rows s). id' (row_attr r) \<in> set (concat (map ids CATEGORIES)))) \<and>
   (id' ` set (attributes data) =
      {''data_selling'', ''account_deletion'', ''encryption'', ''unilateral_changes''} \<longrightarrow>
    map (\<lambda>s. (sec_title s, map (id' \<circ> row_attr) (sec_rows s))) (displayed_categories data) =
      [(''Data Practices'', [''data_selling'']), (''Your Rights'', [''account_deletion'']),
       (''Security & Retention'', [''encryption'']), (''Legal Terms'', [''unilateral_changes''])])"
  using displayed_titles [of data] displayed_titles_subseq [of data]
    displayed_section [of _ data] displayed_row_in_taxonomy [of _ data] displayed_four_ids [of data]
  by blast

theorem categorized_display_witness:
  "map (\<lambda>s. (sec_title s, map (id' \<circ> row_attr) (sec_rows s)))
     (displayed_categories (example_report
        [example_attribute ''unilateral_changes'' ''bad'' 10 2,
         example_attribute ''encryption'' ''good'' 10 9,
         example_attribute ''data_selling'' ''neutral'' 15 8,
         example_attribute ''account_deletion'' ''good'' 5 5])) =
   [(''Data Practices'', [''data_selling'']), (''Your Rights'', [''account_deletion'']),
    (''Security & Retention'', [''encryption'']), (''Legal Terms'', [''unilateral_changes''])]"
proof -
  let ?r = "example_report
        [example_attribute ''unilateral_changes'' ''bad'' 10 2,
         example_attribute ''encryption'' ''good'' 10 9,
         example_attribute ''data_selling'' ''neutral'' 15 8,
         example_attribute ''account_deletion'' ''good'' 5 5]"
  have h: "id' ` set (attributes ?r) =
      {''data_selling'', ''account_deletion'', ''encryption'', ''unilateral_changes''}"
    by (auto simp: example_report_def example_attribute_def)
  from categorized_display [of ?r] h show ?thesis by blast
qed

text \<open>
  C10. The map from ids to attributes keeps the last attribute of each id. Every row of the
  categorized display is the last attribute of the report with its id, and no id has more
  than one row in the whole display.
\<close>

theorem duplicate_ids_last_wins:
  "attrMap attrs k =
     (if k \<in> id' ` set attrs then Some (last (filter (\<lambda>a. id' a = k) attrs)) else None) \<and>
   (\<forall>r \<in> set (concat (map sec_rows (displayed_categories data))).
      row_attr r = last (filter (\<lambda>a. id' a = id' (row_attr r)) (attributes data))) \<and>
   length (filter (\<lambda>r. id' (row_attr r) = k)
             (concat (map sec_rows (displayed_categories data)))) \<le> 1"
proof -
  have 1: "attrMap attrs k =
     (if k \<in> id' ` set attrs then Some (last (filter (\<lambda>a. id' a = k) attrs)) else None)"
    using attrMap_last [of attrs k] filter_id_empty [of k attrs] by simp
  have 2: "\<forall>r \<in> set (concat (map sec_rows (displayed_categories data))).
      row_attr r = last (filter (\<lambda>a. id' a = id' (row_attr r)) (attributes data))"
    using displayed_section [of _ data] by auto
  have "distinct (map (id' \<circ> row_attr) (concat (map sec_rows (displayed_categories data))))"
    by (simp only: displayed_all_row_ids) (rule distinct_filter [OF taxonomy_ids_distinct])
  from distinct_map_filter_le1 [OF this, of k]
  have 3: "length (filter (\<lambda>r. id' (row_attr r) = k)
             (concat (map sec_rows (displayed_categories data)))) \<le> 1"
    by (simp add: comp_def)
  from 1 2 3 show ?thesis by blast
qed

theorem duplicate_ids_last_wins_witness:
  "attrMap [example_attribute ''encryption'' ''bad'' 10 2,
            example_attribute ''data_selling'' ''neutral'' 15 8,
            example_attribute ''encryption'' ''good'' 10 9] ''encryption'' =
     Some (example_attribute ''encryption'' ''good'' 10 9) \<and>
   map row_attr (concat (map sec_rows (displayed_categories (example_report
           [example_attribute ''encryption'' ''bad'' 10 2,
            example_attribute ''data_selling'' ''neutral'' 15 8,
            example_attribute ''encryption'' ''good'' 10 9])))) =
     [example_attribute ''data_selling'' ''neutral'' 15 8,
      example_attribute ''encryption'' ''good'' 10 9]"
proof -
  let ?as = "[example_attribute ''encryption'' ''bad'' 10 2,
            example_attribute ''data_selling'' ''neutral'' 15 8,
            example_attribute ''encryption'' ''good'' 10 9]"
  have a: "attrMap ?as ''encryption'' = Some (example_attribute ''encryption'' ''good'' 10 9)"
    using duplicate_ids_last_wins [of ?as "''encryption''" "example_report ?as"]
    by (simp add: example_attribute_def)
  have b: "map row_attr (concat (map sec_rows (displayed_categories (example_report ?as)))) =
     [example_attribute ''data_selling'' ''neutral'' 15 8,
      example_attribute ''encryption'' ''good'' 10 9]"
    by (simp add: displayed_categories_def NutritionLabel_def CATEGORIES_def CategorySection_def
        catAttrs_def attrMap_def example_report_def example_attribute_def AttributeRow_def)
  from a b show ?thesis by blast
qed

section \<open>Properties of the analysis request\<close>

subsection \<open>Trimming\<close>

lemma strip_one_Nil: "strip_one ws [] = None"
  by (induction ws) auto

lemma strip_start_Nil: "strip_start ws [] = []"
  by (simp add: strip_start.simps strip_one_Nil)

lemma strip_one_whitespace:
  "x \<in> set whitespace \<Longrightarrow> strip_one whitespace (x @ rest) = Some rest"
  unfolding whitespace_def set_simps insert_iff empty_iff
  by (elim disjE) simp_all

lemma strip_start_whitespace_only:
  "set xs \<subseteq> set whitespace \<Longrightarrow> strip_start whitespace (concat xs) = []"
proof (induction xs)
  case Nil
  show ?case by (simp add: strip_start_Nil)
next
  case (Cons x xs)
  then have "strip_one whitespace (x @ concat xs) = Some (concat xs)"
    by (simp add: strip_one_whitespace)
  with Cons show ?case by (simp add: strip_start.simps [of whitespace "x @ concat xs"])
qed

lemma trim_whitespace_only: "set xs \<subseteq> set whitespace \<Longrightarrow> trim (concat xs) = []"
  by (simp add: trim_def strip_start_whitespace_only strip_start_Nil)

lemma trim_empty: "trim [] = []"
  using trim_whitespace_only [of "[]"] by simp

lemma presets_not_blank: "\<forall>p \<in> set SERVICE_PRESETS. trim (name p) \<noteq> []"
  by code_simp

lemma strip_one_SomeD:
  "strip_one ws s = Some r \<Longrightarrow> \<exists>w \<in> set ws. w \<noteq> [] \<and> s = w @ r"
  by (induction ws) (auto split: if_splits simp: prefix_def)

lemma strip_one_None_iff:
  "(strip_one ws s = None) = (\<forall>w \<in> set ws. w = [] \<or> \<not> prefix w s)"
  by (induction ws) auto

lemma strip_start_fixed: "strip_one ws s = None \<Longrightarrow> strip_start ws s = s"
  by (simp add: strip_start.simps)

lemma strip_start_done: "strip_one ws (strip_start ws s) = None"
proof (induction ws s rule: strip_start.induct)
  case (1 ws s)
  show ?case
  proof (cases "strip_one ws s")
    case None
    then show ?thesis by (simp add: strip_start_fixed)
  next
    case (Some r)
    with 1 show ?thesis by (simp add: strip_start.simps [of ws s])
  qed
qed

lemma strip_start_suffix: "suffix (strip_start ws s) s"
proof (induction ws s rule: strip_start.induct)
  case (1 ws s)
  show ?case
  proof (cases "strip_one ws s")
    case None
    then show ?thesis by (simp add: strip_start_fixed)
  next
    case (Some r)
    with 1 have "suffix (strip_start ws r) r" by simp
    moreover from strip_one_SomeD [OF Some] have "suffix r s" by (auto simp: suffix_def)
    ultimately have "suffix (strip_start ws r) s" by (rule suffix_order.trans)
    with Some show ?thesis by (simp add: strip_start.simps [of ws s])
  qed
qed

lemma strip_one_None_prefix:
  "strip_one ws r = None \<Longrightarrow> prefix e r \<Longrightarrow> strip_one ws e = None"
  by (auto simp: strip_one_None_iff dest: prefix_order.trans)

lemma trim_prefix: "prefix (trim s) (strip_start whitespace s)"
proof -
  have "suffix (strip_start (map rev whitespace) (rev (strip_start whitespace s)))
          (rev (strip_start whitespace s))"
    by (rule strip_start_suffix)
  then show ?thesis by (simp add: trim_def suffix_to_prefix)
qed

lemma trim_idem: "trim (trim s) = trim s"
proof -
  have "strip_one whitespace (trim s) = None"
    using strip_start_done trim_prefix by (rule strip_one_None_prefix)
  then have 1: "strip_start whitespace (trim s) = trim s" by (rule strip_start_fixed)
  have "strip_one (map rev whitespace) (rev (trim s)) = None"
    by (simp add: trim_def strip_start_done)
  then have 2: "strip_start (map rev whitespace) (rev (trim s)) = rev (trim s)"
    by (rule strip_start_fixed)
  show ?thesis by (simp add: trim_def [of "trim s"] 1 2)
qed

subsection \<open>Submitting a blank query\<close>

lemma handleSearch_blank:
  assumes "trim query = []"
  shows "requests (handleSearch env net query s) = requests s"
    and "phase (handleSearch env net query s) = Pending"
    and "pending s = [] \<Longrightarrow>
         phase (settle env 0 (handleSearch env net query s)) =
           Failure ''Please enter a service name to analyze.''"
  using assms
  by (simp_all add: handleSearch_def analyzeService_def phase_def isPending_def settle_def
      error_message_def)

text \<open>
  The page calls \<open>handleSearch\<close> with non-blank queries only: the form passes a trimmed,
  non-empty query and the presets are not blank.
\<close>

lemma Home_step_submits_nonblank:
  "Home_step env s e = s \<or>
   (\<exists>q net. trim q \<noteq> [] \<and> Home_step env s e = handleSearch env net q s) \<or>
   Home_step env s e = reset s \<or>
   (\<exists>i. Home_step env s e = settle env i s)"
proof (cases e)
  case (SubmitForm query net)
  show ?thesis
  proof (cases "handleSubmit query (isPending s)")
    case None
    with SubmitForm show ?thesis by simp
  next
    case (Some q)
    then have "q = trim query" and "trim query \<noteq> []"
      by (auto simp: handleSubmit_def split: if_splits)
    then have "trim q \<noteq> []" by (simp add: trim_idem)
    with SubmitForm Some show ?thesis by auto
  qed
next
  case (ClickPreset i net)
  show ?thesis
  proof (cases "\<not> truthy (result s) \<and> \<not> isPending s \<and> i < length SERVICE_PRESETS")
    case True
    then have "SERVICE_PRESETS ! i \<in> set SERVICE_PRESETS" by simp
    with presets_not_blank have "trim (name (SERVICE_PRESETS ! i)) \<noteq> []" by blast
    with True ClickPreset show ?thesis by (auto simp: ServiceCard_click_def)
  next
    case False
    with ClickPreset show ?thesis by auto
  qed
next
  case ClickAnalyzeAnother
  then show ?thesis by simp
next
  case (Settle i)
  then show ?thesis by auto
qed

text \<open>
  C2. A query that is empty after trimming is not submitted. The submit button is disabled
  and the form's handler does not call \<^verbatim>\<open>onSearch\<close>, so the page's state, its lifecycle state
  and its log of requests included, stays as it was; and the server action rejects such a
  query with a validation error before it fetches anything.
\<close>

theorem blank_query_not_submitted:
  assumes "trim query = []"
  shows "submit_disabled query (isPending s) \<and>
         handleSubmit query (isPending s) = None \<and>
         Home_step env s (SubmitForm query net) = s \<and>
         requests (Home_step env s (SubmitForm query net)) = requests s \<and>
         phase (Home_step env s (SubmitForm query net)) = phase s \<and>
         (phase s = Idle \<longrightarrow> phase (Home_step env s (SubmitForm query net)) = Idle) \<and>
         analyzeService env query net =
           ([], Inl (Error ''Please enter a service name to analyze.''))"
  using assms
  by (simp add: submit_disabled_def handleSubmit_def analyzeService_def)

theorem blank_query_not_submitted_witness:
  "trim [CHR 0x20, CHR 0x09, CHR 0xC2, CHR 0xA0] = [] \<and>
   submit_disabled [CHR 0x20, CHR 0x09, CHR 0xC2, CHR 0xA0] (isPending initial) \<and>
   requests (Home_step None initial (SubmitForm [CHR 0x20, CHR 0x09, CHR 0xC2, CHR 0xA0] Never)) = [] \<and>
   phase (Home_step None initial (SubmitForm [CHR 0x20, CHR 0x09, CHR 0xC2, CHR 0xA0] Never)) = Idle"
proof -
  have h: "trim [CHR 0x20, CHR 0x09, CHR 0xC2, CHR 0xA0] = []"
    by code_simp
  have i: "phase initial = Idle" "requests initial = []"
    by (simp_all add: phase_def initial_def isPending_def)
  from blank_query_not_submitted [OF h, of initial None Never] h i show ?thesis
    by simp
qed

subsection \<open>One call in flight\<close>


lemma handleSearch_fields:
  "pending (handleSearch env net q s) = pending s @ [\<lparr>call_query = q, call_network = net\<rparr>]"
  "result (handleSearch env net q s) = JNull"
  "error (handleSearch env net q s) = None"
  "activeQuery (handleSearch env net q s) = q"
  "requests (handleSearch env net q s) = requests s @ fst (analyzeService env q net)"
  by (simp_all add: handleSearch_def)

















lemma trim_Netflix: "trim ''Netflix'' = ''Netflix''"
  by code_simp

lemma trim_Spotify: "trim ''Spotify'' = ''Spotify''"
  by code_simp

lemma analyze_slow: "trim q \<noteq> [] \<Longrightarrow> snd (analyzeService env q (slow_network n)) = Inr (example_data n)"
  by (simp add: analyzeService_def analyze_try_def analyze_catch_def slow_network_def
      example_response_def ok_def timeout_ms_def)

lemma analyze_fast: "trim q \<noteq> [] \<Longrightarrow> snd (analyzeService env q (fast_network n)) = Inr (example_data n)"
  by (simp add: analyzeService_def analyze_try_def analyze_catch_def fast_network_def
      example_response_def ok_def timeout_ms_def)



text \<open>
  The guarantee rests on the two gates, not on \<open>settle\<close>. In a state with two calls in
  flight, which the page never reaches, \<open>settle\<close> stores the outcome of whichever call
  settles, where the guarded page drops the outcome of the older call.
\<close>

lemma settle_compares_nothing:
  "result (settle None 0 (settle None 1 (handleSearch None (fast_network ''Spotify'') ''Spotify''
             (handleSearch None (slow_network ''Netflix'') ''Netflix'' initial)))) =
     example_data ''Netflix'' \<and>
   result (page (guarded_settle None 0 (guarded_settle None 1
             (guarded_search None (fast_network ''Spotify'') ''Spotify''
               (guarded_search None (slow_network ''Netflix'') ''Netflix'' guarded_initial))))) =
     example_data ''Spotify''"
  by (simp add: settle_def guarded_settle_def guarded_search_def guarded_initial_def
      handleSearch_fields analyze_slow analyze_fast trim_Netflix trim_Spotify initial_def)

subsection \<open>Timeout\<close>

lemma fetch_timeout:
  assumes "trim query \<noteq> []" and "net = Never \<or> (\<exists>t r. net = After t r \<and> timeout_ms \<le> t)"
  shows "snd (analyzeService env query net) =
         Inl (Error ''Analysis timed out. The service might be taking too long to respond.'')"
  using assms by (auto simp: analyzeService_def analyze_try_def analyze_catch_def)

lemma success_body_timeout:
  assumes "trim query \<noteq> []" and "t < timeout_ms" and "ok res"
    and "json_body res = Never \<or> (\<exists>t' r. json_body res = After t' r \<and> timeout_ms \<le> t')"
  shows "snd (analyzeService env query (After t (Inr res))) =
         Inl (Error ''Analysis timed out. The service might be taking too long to respond.'')"
  using assms by (auto simp: analyzeService_def analyze_try_def analyze_catch_def)

lemma error_body_timeout:
  assumes "trim query \<noteq> []" and "t < timeout_ms" and "\<not> ok res"
    and "json_body res = Never \<or> (\<exists>t' r. json_body res = After t' r \<and> timeout_ms \<le> t')"
  shows "snd (analyzeService env query (After t (Inr res))) =
         Inl (Error (''Backend returned '' @ digits (status res) @ '': '' @ statusText res))"
  using assms by (auto simp: analyzeService_def analyze_try_def analyze_catch_def)

text \<open>
  C5. The timer aborts what the action awaits 120000 ms after the call started. A fetch still
  pending then, and the body of a success response still pending then, end in the timeout
  error (\<open>fetch_timeout\<close>, \<open>success_body_timeout\<close>). The body of an error response is read
  under a \<^verbatim>\<open>catch\<close> that swallows every rejection, the abort included: an error response
  whose body never arrives ends in the status-line error, not in the timeout error.
\<close>

theorem error_response_with_stalled_body:
  "timeout_ms = 120000 \<and>
   snd (analyzeService env ''Netflix''
          (After 1000 (Inr (example_response 500 ''Internal Server Error'' Never)))) =
     Inl (Error ''Backend returned 500: Internal Server Error'')"
  by (simp add: analyzeService_def analyze_try_def analyze_catch_def trim_Netflix
      example_response_def ok_def timeout_ms_def digits.simps)

subsection \<open>Error responses\<close>

text \<open>
  C6. For a response with a status outside 200 to 299 that arrives in time: a \<^verbatim>\<open>detail\<close>
  member of a JSON object that is a non-empty string, a number other than zero or
  \<^verbatim>\<open>true\<close> is, as text, the message of the error; when the member is absent or falsy (the
  empty string, zero, \<^verbatim>\<open>false\<close>, \<^verbatim>\<open>null\<close>), when the body is JSON but not an object (a
  string, a number, a boolean, an array), and when the body cannot be parsed, the message
  is \<^verbatim>\<open>Backend returned {status}: {statusText}\<close>.
\<close>

theorem error_status_message:
  assumes "trim query \<noteq> []" and "t < timeout_ms" and "\<not> ok res"
  shows "(t' < timeout_ms \<and> json_body res = After t' (Inr (JObj kvs)) \<and>
          map_of (rev kvs) ''detail'' = Some (JStr d) \<and> d \<noteq> [] \<longrightarrow>
            snd (analyzeService env query (After t (Inr res))) = Inl (Error d)) \<and>
         (t' < timeout_ms \<and> json_body res = After t' (Inr (JObj kvs)) \<and>
          map_of (rev kvs) ''detail'' = Some (JNum n) \<and> n \<noteq> ''0'' \<longrightarrow>
            snd (analyzeService env query (After t (Inr res))) = Inl (Error n)) \<and>
         (t' < timeout_ms \<and> json_body res = After t' (Inr (JObj kvs)) \<and>
          map_of (rev kvs) ''detail'' = Some (JBool True) \<longrightarrow>
            snd (analyzeService env query (After t (Inr res))) = Inl (Error ''true'')) \<and>
         (t' < timeout_ms \<and> json_body res = After t' (Inr (JObj kvs)) \<and>
          map_of (rev kvs) ''detail'' \<in>
            {None, Some (JStr []), Some (JNum ''0''), Some (JBool False), Some JNull} \<longrightarrow>
            snd (analyzeService env query (After t (Inr res))) =
              Inl (Error (''Backend returned '' @ digits (status res) @ '': '' @ statusText res))) \<and>
         (t' < timeout_ms \<and> json_body res = After t' (Inr b) \<and>
          b \<noteq> JNull \<and> (\<forall>ms. b \<noteq> JObj ms) \<longrightarrow>
            snd (analyzeService env query (After t (Inr res))) =
              Inl (Error (''Backend returned '' @ digits (status res) @ '': '' @ statusText res))) \<and>
         (json_body res = After t' (Inl e) \<longrightarrow>
            snd (analyzeService env query (After t (Inr res))) =
              Inl (Error (''Backend returned '' @ digits (status res) @ '': '' @ statusText res)))"
proof -
  have nonobject: "detail b = Inr None" if "b \<noteq> JNull" and "\<forall>ms. b \<noteq> JObj ms"
    using that by (cases b) simp_all
  show ?thesis
    using assms nonobject
    by (auto simp: analyzeService_def analyze_try_def analyze_catch_def)
qed

theorem error_status_message_witness:
  "snd (analyzeService None ''Netflix''
          (After 1000 (Inr (example_response 503 ''Service Unavailable''
             (After 1010 (Inr (JObj [(''detail'', JStr ''rate limited'')]))))))) =
     Inl (Error ''rate limited'') \<and>
   snd (analyzeService None ''Netflix''
          (After 1000 (Inr (example_response 503 ''Service Unavailable''
             (After 1010 (Inr (JObj [(''detail'', JNum ''42'')]))))))) =
     Inl (Error ''42'') \<and>
   snd (analyzeService None ''Netflix''
          (After 1000 (Inr (example_response 503 ''Service Unavailable''
             (After 1010 (Inr (JObj [(''detail'', JNum ''0'')]))))))) =
     Inl (Error ''Backend returned 503: Service Unavailable'') \<and>
   snd (analyzeService None ''Netflix''
          (After 1000 (Inr (example_response 503 ''Service Unavailable''
             (After 1010 (Inr (JStr ''oops''))))))) =
     Inl (Error ''Backend returned 503: Service Unavailable'') \<and>
   snd (analyzeService None ''Netflix''
          (After 1000 (Inr (example_response 500 ''Internal Server Error''
             (After 1010 (Inl (Error ''Unexpected token < in JSON at position 0''))))))) =
     Inl (Error ''Backend returned 500: Internal Server Error'')"
proof -
  have q: "trim ''Netflix'' \<noteq> []" by (simp add: trim_Netflix)
  have t: "(1000::nat) < timeout_ms" "(1010::nat) < timeout_ms" by (simp_all add: timeout_ms_def)
  let ?r = "\<lambda>b. example_response 503 ''Service Unavailable'' (After 1010 (Inr b))"
  let ?r5 = "example_response 500 ''Internal Server Error''
             (After 1010 (Inl (Error ''Unexpected token < in JSON at position 0'')))"
  have n: "\<not> ok (?r b)" for b by (simp add: ok_def example_response_def)
  have n5: "\<not> ok ?r5" by (simp add: ok_def example_response_def)
  have jb: "json_body (?r b) = After 1010 (Inr b)" for b by (simp add: example_response_def)
  have jb5: "json_body ?r5 = After 1010 (Inl (Error ''Unexpected token < in JSON at position 0''))"
    by (simp add: example_response_def)
  have d3: "digits (status (?r b)) = ''503''" "statusText (?r b) = ''Service Unavailable''" for b
    by (simp_all add: example_response_def digits.simps)
  have d5: "digits (status ?r5) = ''500''" "statusText ?r5 = ''Internal Server Error''"
    by (simp_all add: example_response_def digits.simps)
  from error_status_message [OF q t(1) n, where t' = 1010
      and kvs = "[(''detail'', JStr ''rate limited'')]" and d = "''rate limited''" and env = None]
    t(2) jb
  have 1: "snd (analyzeService None ''Netflix''
             (After 1000 (Inr (?r (JObj [(''detail'', JStr ''rate limited'')]))))) =
           Inl (Error ''rate limited'')"
    by simp
  from error_status_message [OF q t(1) n, where t' = 1010
      and kvs = "[(''detail'', JNum ''42'')]" and n = "''42''" and env = None]
    t(2) jb
  have 2: "snd (analyzeService None ''Netflix''
             (After 1000 (Inr (?r (JObj [(''detail'', JNum ''42'')]))))) = Inl (Error ''42'')"
    by simp
  from error_status_message [OF q t(1) n, where t' = 1010
      and kvs = "[(''detail'', JNum ''0'')]" and env = None]
    t(2) jb d3
  have 3: "snd (analyzeService None ''Netflix''
             (After 1000 (Inr (?r (JObj [(''detail'', JNum ''0'')]))))) =
           Inl (Error ''Backend returned 503: Service Unavailable'')"
    by simp
  from error_status_message [OF q t(1) n, where t' = 1010 and b = "JStr ''oops''" and env = None]
    t(2) jb d3
  have 4: "snd (analyzeService None ''Netflix'' (After 1000 (Inr (?r (JStr ''oops''))))) =
           Inl (Error ''Backend returned 503: Service Unavailable'')"
    by simp
  from error_status_message [OF q t(1) n5, where t' = 1010
      and e = "Error ''Unexpected token < in JSON at position 0''" and env = None]
    jb5 d5
  have 5: "snd (analyzeService None ''Netflix'' (After 1000 (Inr ?r5))) =
           Inl (Error ''Backend returned 500: Internal Server Error'')"
    by simp
  from 1 2 3 4 5 show ?thesis by simp
qed

text \<open>A body with an empty \<^verbatim>\<open>detail\<close> gives the status line, not the empty text.\<close>

theorem empty_detail_counterexample:
  "snd (analyzeService None ''Netflix''
          (After 1000 (Inr (example_response 503 ''Service Unavailable''
             (After 1010 (Inr (JObj [(''detail'', JStr [])]))))))) =
     Inl (Error ''Backend returned 503: Service Unavailable'') \<and>
   snd (analyzeService None ''Netflix''
          (After 1000 (Inr (example_response 503 ''Service Unavailable''
             (After 1010 (Inr (JObj [(''detail'', JStr [])]))))))) \<noteq> Inl (Error [])"
  by (simp add: analyzeService_def analyze_try_def analyze_catch_def trim_Netflix
      example_response_def ok_def timeout_ms_def digits.simps)

text \<open>
  Two cases that the statement above leaves out. A body that is JSON \<^verbatim>\<open>null\<close> makes
  \<^verbatim>\<open>body.detail\<close> throw, and the TypeError is rethrown; a \<^verbatim>\<open>detail\<close> that is an object is
  converted to a string by \<^verbatim>\<open>new Error\<close>.
\<close>

lemma null_body_TypeError:
  "snd (analyzeService None ''Netflix''
          (After 1000 (Inr (example_response 500 ''Internal Server Error''
             (After 1010 (Inr JNull)))))) = Inl (Error null_read_message)"
  by (simp add: analyzeService_def analyze_try_def analyze_catch_def trim_Netflix
      example_response_def ok_def timeout_ms_def)

lemma object_detail:
  "snd (analyzeService None ''Netflix''
          (After 1000 (Inr (example_response 422 ''Unprocessable Entity''
             (After 1010 (Inr (JObj [(''detail'', JObj [(''msg'', JStr ''bad'')])]))))))) =
     Inl (Error ''[object Object]'') \<and>
   snd (analyzeService None ''Netflix''
          (After 1000 (Inr (example_response 422 ''Unprocessable Entity''
             (After 1010 (Inr (JObj [(''detail'', JObj [(''toString'', JNum ''1'')])]))))))) =
     Inl (Error convert_message)"
  by (simp add: analyzeService_def analyze_try_def analyze_catch_def trim_Netflix
      example_response_def ok_def timeout_ms_def)

end
